theory Spec2Isabelle
  imports Complex_Main "HOL-Library.Word"
begin

unbundle bit_operations_syntax

section \<open>The RBF network of rbfnetwork.cpp\<close>

text \<open>
  A \<open>double\<close> of the numerical code is modelled as a \<open>real\<close>: the theorems of this
  section are about the arithmetic the code writes down, not about its rounding.
  Division is the exception, since a double divided by zero is an infinity or a NaN
  and no real: the quotients that \<open>eval\<close>, \<open>evalBasis\<close> and \<open>evalJacobian\<close> compute, and
  what is computed from them, are values of the type \<open>double\<close> below. The constructor
  divides two singular values only after it has tested both to be positive; that
  quotient stays a real.
\<close>

subsection \<open>Errors\<close>

text \<open>
  \<open>Exception\<close> is the library's exception, with its message. \<open>std_out_of_range\<close> is
  what \<open>std::vector::at\<close> throws. \<open>eigen_index_out_of_range\<close> stands for a coefficient
  access outside an Eigen vector (an assertion failure in a debug build, an invalid
  read otherwise). \<open>IOError\<close> is the failure of decoding a stream that is too short
  (the specification's I/O error; the code that raises it is not among the sources).
\<close>

datatype error = Exception string | std_out_of_range | eigen_index_out_of_range | IOError

subsection \<open>Doubles that may not be finite\<close>

text \<open>
  The value of a double that results from a division: a real number, or \<open>NotFinite\<close>
  for an infinity or a NaN. \<open>ddiv\<close> is the division of a double by a finite value: by
  zero it is not finite. Sums, differences and products are not finite when an operand
  is not. The zero of the type is the finite 0.
\<close>

datatype double = Finite real | NotFinite

fun ddiv :: "double \<Rightarrow> real \<Rightarrow> double" where
  "ddiv (Finite a) b = (if b = 0 then NotFinite else Finite (a / b))"
| "ddiv NotFinite b = NotFinite"

fun dadd :: "double \<Rightarrow> double \<Rightarrow> double" where
  "dadd (Finite a) (Finite b) = Finite (a + b)"
| "dadd a b = NotFinite"

fun dsub :: "double \<Rightarrow> double \<Rightarrow> double" where
  "dsub (Finite a) (Finite b) = Finite (a - b)"
| "dsub a b = NotFinite"

fun dmul :: "double \<Rightarrow> double \<Rightarrow> double" where
  "dmul (Finite a) (Finite b) = Finite (a * b)"
| "dmul a b = NotFinite"

instantiation double :: zero
begin

definition zero_double :: double where
  "zero_double = Finite 0"

instance ..

end

subsection \<open>Data\<close>

text \<open>A sample: \<open>getX\<close> is the input vector, \<open>getY\<close> the scalar output.\<close>

record DataPoint =
  getX :: "real list"
  getY :: real

text \<open>
  Modelled from the spec: the sample table (class DataTable, whose code is not among
  the sources). It is an ordered collection of samples that fixes the number of input
  variables; \<open>points\<close> lists the samples in iteration order (\<open>cbegin\<close> to \<open>cend\<close>).
\<close>

record DataTable =
  dimX :: nat
  points :: "DataPoint list"

definition getNumVariables :: "DataTable \<Rightarrow> nat" where
  "getNumVariables t = dimX t"

definition getNumSamples :: "DataTable \<Rightarrow> nat" where
  "getNumSamples t = length (points t)"

text \<open>The table's invariant: every sample has \<open>dimX\<close> input coordinates.\<close>

definition valid_table :: "DataTable \<Rightarrow> bool" where
  "valid_table t = list_all (\<lambda>p. length (getX p) = dimX t) (points t)"

text \<open>
  The kernel-type argument. The enumeration is declared outside the sources; a C++
  enumeration can also hold a value of its underlying type that is none of its
  enumerators, which is \<open>OTHER_TYPE\<close> here.
\<close>

datatype RBFType =
  THIN_PLATE_SPLINE | MULTIQUADRIC | INVERSE_QUADRIC | INVERSE_MULTIQUADRIC | GAUSSIAN
  | OTHER_TYPE int

text \<open>
  A kernel object (class RBF): its two virtual functions, \<open>eval\<close> (written \<open>eval_rbf\<close>,
  the network's \<open>eval\<close> keeping the name) and \<open>evalDerivative\<close>. The five kernel
  classes are implemented outside the sources, so the model takes them as a parameter
  \<open>new\<close> that maps the class to the object its constructor returns.
\<close>

record RBF =
  eval_rbf :: "real \<Rightarrow> real"
  evalDerivative :: "real \<Rightarrow> real"

datatype RBFClass = ThinPlateSpline | Multiquadric | InverseQuadric | InverseMultiquadric | Gaussian

text \<open>A dense matrix (Eigen's MatrixXd): its dimensions and its coefficients.\<close>

record 'a DenseMatrix =
  rows :: nat
  cols :: nat
  coeff :: "nat \<times> nat \<Rightarrow> 'a"

definition setZero :: "nat \<Rightarrow> nat \<Rightarrow> 'a::zero DenseMatrix" where
  "setZero r c = \<lparr>rows = r, cols = c, coeff = (\<lambda>_. 0)\<rparr>"

definition set_coeff :: "'a DenseMatrix \<Rightarrow> nat \<Rightarrow> nat \<Rightarrow> 'a \<Rightarrow> 'a DenseMatrix" where
  "set_coeff A i j v = A\<lparr>coeff := (coeff A)((i, j) := v)\<rparr>"

text \<open>Matrix product and matrix-vector product, as Eigen's \<open>*\<close>.\<close>

definition mat_mul :: "real DenseMatrix \<Rightarrow> real DenseMatrix \<Rightarrow> real DenseMatrix" where
  "mat_mul P A = \<lparr>rows = rows P, cols = cols A,
     coeff = (\<lambda>(i, j). \<Sum>k < cols P. coeff P (i, k) * coeff A (k, j))\<rparr>"

definition mat_vec :: "real DenseMatrix \<Rightarrow> real list \<Rightarrow> real list" where
  "mat_vec P b = map (\<lambda>i. \<Sum>k < cols P. coeff P (i, k) * b ! k) [0..<rows P]"

text \<open>
  The singular value decomposition (Eigen's JacobiSVD) is a library outside the
  sources: the model takes it as a parameter that maps the matrix to the decomposition
  object, of which the code uses the singular values and the solver.
\<close>

record JacobiSVD =
  singularValues :: "real list"
  solve :: "real list \<Rightarrow> real list"

text \<open>A coefficient of an Eigen vector, by index.\<close>

definition vec_at :: "real list \<Rightarrow> int \<Rightarrow> error + real" where
  "vec_at v i = (if 0 \<le> i \<and> i < int (length v) then Inr (v ! nat i)
                 else Inl eigen_index_out_of_range)"

text \<open>The network: the fields of class RBFNetwork and of its base class Function.\<close>

record RBFNetwork =
  numVariables :: nat
  samples :: DataTable
  type :: RBFType
  normalized :: bool
  precondition :: bool
  numSamples :: nat
  fn :: RBF
  coefficients :: "real list"

text \<open>What the constructor computes besides the network: the conditioning of \<open>A\<close>.\<close>

record Conditioning =
  svalmax :: real
  svalmin :: real
  rcondnum :: real

subsection \<open>Distance\<close>

text \<open>
  \<open>RBFNetwork::dist\<close> on two vectors, and on two samples. The elements are read
  with \<open>at\<close> at indices below the common size, so no read is out of range. (The
  code's accumulator \<open>sum\<close> is written \<open>sum_k\<close> throughout, \<open>sum\<close> being a
  constant of HOL.)
\<close>

definition dist_vec :: "real list \<Rightarrow> real list \<Rightarrow> error + real" where
  "dist_vec x y =
     (if length x \<noteq> length y
      then Inl (Exception ''RBFNetwork::dist: Cannot measure distance between two points of different dimension'')
      else Inr (sqrt (fold (\<lambda>i sum_k. sum_k + (x ! i - y ! i) * (x ! i - y ! i)) [0..<length x] 0)))"

definition dist_point :: "DataPoint \<Rightarrow> DataPoint \<Rightarrow> error + real" where
  "dist_point x y = dist_vec (getX x) (getX y)"

subsection \<open>Construction (training)\<close>

text \<open>The constructor's choice of the kernel object, branch by branch.\<close>

definition select_fn :: "(RBFClass \<Rightarrow> RBF) \<Rightarrow> RBFType \<Rightarrow> RBF" where
  "select_fn new t =
     (if t = THIN_PLATE_SPLINE then new ThinPlateSpline
      else if t = MULTIQUADRIC then new Multiquadric
      else if t = INVERSE_QUADRIC then new InverseQuadric
      else if t = INVERSE_MULTIQUADRIC then new InverseMultiquadric
      else if t = GAUSSIAN then new Gaussian
      else new ThinPlateSpline)"

text \<open>
  The inner loop of the assembly: \<open>it1\<close> is sample \<open>i\<close>, the list holds the samples
  \<open>it2\<close> still to visit, \<open>j\<close> is the column. A kernel value that is zero is neither
  stored nor added.
\<close>

fun assemble_row ::
  "RBF \<Rightarrow> DataPoint \<Rightarrow> DataPoint list \<Rightarrow> nat \<Rightarrow> nat \<Rightarrow> real DenseMatrix \<Rightarrow> real
   \<Rightarrow> error + (real DenseMatrix \<times> real)" where
  "assemble_row f it1 [] i j A sum_k = Inr (A, sum_k)"
| "assemble_row f it1 (it2 # rest) i j A sum_k =
     (case dist_point it1 it2 of
        Inl e \<Rightarrow> Inl e
      | Inr r \<Rightarrow>
          (let val = eval_rbf f r in
           if val \<noteq> 0
           then assemble_row f it1 rest i (j + 1) (set_coeff A i j val) (sum_k + val)
           else assemble_row f it1 rest i (j + 1) A sum_k))"

text \<open>The outer loop: one row of \<open>A\<close> and one entry of \<open>b\<close> per sample.\<close>

fun assemble_rows ::
  "RBF \<Rightarrow> bool \<Rightarrow> DataPoint list \<Rightarrow> DataPoint list \<Rightarrow> nat \<Rightarrow> real DenseMatrix \<Rightarrow> real list
   \<Rightarrow> error + (real DenseMatrix \<times> real list)" where
  "assemble_rows f nz all [] i A b = Inr (A, b)"
| "assemble_rows f nz all (it1 # rest) i A b =
     (case assemble_row f it1 all i 0 A 0 of
        Inl e \<Rightarrow> Inl e
      | Inr (A', sum_k) \<Rightarrow>
          (let y = getY it1 in
           assemble_rows f nz all rest (i + 1) A' (b[i := (if nz then sum_k * y else y)])))"

definition assemble :: "RBF \<Rightarrow> bool \<Rightarrow> DataTable \<Rightarrow> nat \<Rightarrow> error + (real DenseMatrix \<times> real list)" where
  "assemble f nz s n =
     assemble_rows f nz (points s) (points s) 0 (setZero n n) (replicate n 0)"

definition computePreconditionMatrix :: "RBFNetwork \<Rightarrow> real DenseMatrix" where
  "computePreconditionMatrix net = setZero (numSamples net) (numSamples net)"

text \<open>
  The constructor \<open>RBFNetwork(samples, type, normalized)\<close>. It returns the trained
  network together with the conditioning values it computes, or the error that ends it.
  The member \<open>precondition\<close> is initialised to false, so the preconditioning branch
  is never taken; it is modelled as written. The singular values are read at index 0
  and at index \<open>rows - 1\<close>.
\<close>

definition RBFNetwork_ctor ::
  "(RBFClass \<Rightarrow> RBF) \<Rightarrow> (real DenseMatrix \<Rightarrow> JacobiSVD) \<Rightarrow> DataTable \<Rightarrow> RBFType \<Rightarrow> bool
   \<Rightarrow> error + (RBFNetwork \<times> Conditioning)" where
  "RBFNetwork_ctor new jacobiSVD s t nz =
     (let net = \<lparr>numVariables = getNumVariables s, samples = s, type = t, normalized = nz,
                 precondition = False, numSamples = getNumSamples s,
                 fn = select_fn new t, coefficients = []\<rparr>
      in case assemble (fn net) (normalized net) (samples net) (numSamples net) of
           Inl e \<Rightarrow> Inl e
         | Inr (A0, b0) \<Rightarrow>
             (let (A, b) = (if precondition net
                            then (let P = computePreconditionMatrix net
                                  in (mat_mul P A0, mat_vec P b0))
                            else (A0, b0));
                  svd = jacobiSVD A;
                  svals = singularValues svd
              in case vec_at svals 0 of
                   Inl e \<Rightarrow> Inl e
                 | Inr smax \<Rightarrow>
                     (case vec_at svals (int (length svals) - 1) of
                        Inl e \<Rightarrow> Inl e
                      | Inr smin \<Rightarrow>
                          Inr (net\<lparr>coefficients := solve svd b\<rparr>,
                               \<lparr>svalmax = smax, svalmin = smin,
                                rcondnum = (if smax \<le> 0 \<or> smin \<le> 0 then 0
                                            else smin / smax)\<rparr>))))"

subsection \<open>Evaluation\<close>

text \<open>
  The loop of \<open>RBFNetwork::eval\<close>, where \<open>i\<close> counts the samples visited, and the
  function: a normalized network divides \<open>sumw\<close> by \<open>sum\<close>, whatever \<open>sum\<close> is.
\<close>

fun eval_loop ::
  "RBF \<Rightarrow> real list \<Rightarrow> real list \<Rightarrow> DataPoint list \<Rightarrow> nat \<Rightarrow> real \<Rightarrow> real
   \<Rightarrow> error + (real \<times> real)" where
  "eval_loop f w xv [] i sum_k sumw = Inr (sum_k, sumw)"
| "eval_loop f w xv (it # rest) i sum_k sumw =
     (case dist_vec xv (getX it) of
        Inl e \<Rightarrow> Inl e
      | Inr r \<Rightarrow>
          (let fval = eval_rbf f r in
           case vec_at w (int i) of
             Inl e \<Rightarrow> Inl e
           | Inr c \<Rightarrow> eval_loop f w xv rest (i + 1) (sum_k + fval) (sumw + c * fval)))"

definition eval :: "RBFNetwork \<Rightarrow> real list \<Rightarrow> error + double" where
  "eval net x =
     (if length x \<noteq> numVariables net
      then Inl (Exception ''RBFNetwork::eval: Wrong dimension on evaluation point x.'')
      else case eval_loop (fn net) (coefficients net) x (points (samples net)) 0 0 0 of
             Inl e \<Rightarrow> Inl e
           | Inr (sum_k, sumw) \<Rightarrow>
               Inr (if normalized net then ddiv (Finite sumw) sum_k else Finite sumw))"

text \<open>
  Modelled from the spec: the accessor \<open>getNumCoefficients\<close>, declared outside the
  sources: the length of the weight vector.
\<close>

definition getNumCoefficients :: "RBFNetwork \<Rightarrow> nat" where
  "getNumCoefficients net = length (coefficients net)"

text \<open>
  The loop of \<open>RBFNetwork::evalBasis\<close>. The vector \<open>basis\<close> is allocated with
  \<open>getNumCoefficients\<close> entries whose content is not initialised (\<open>undefined\<close> here);
  the loop overwrites entry \<open>i\<close> for sample \<open>i\<close>. A normalized network then divides
  every entry by the sum of all entries.
\<close>

fun evalBasis_loop ::
  "RBF \<Rightarrow> real list \<Rightarrow> DataPoint list \<Rightarrow> nat \<Rightarrow> real list \<Rightarrow> error + real list" where
  "evalBasis_loop f xv [] i basis = Inr basis"
| "evalBasis_loop f xv (it # rest) i basis =
     (case dist_vec xv (getX it) of
        Inl e \<Rightarrow> Inl e
      | Inr r \<Rightarrow>
          if i < length basis
          then evalBasis_loop f xv rest (i + 1) (basis[i := eval_rbf f r])
          else Inl eigen_index_out_of_range)"

definition evalBasis :: "RBFNetwork \<Rightarrow> real list \<Rightarrow> error + double list" where
  "evalBasis net x =
     (if length x \<noteq> numVariables net
      then Inl (Exception ''RBFNetwork::evalBasis: Wrong dimension on evaluation point x.'')
      else case evalBasis_loop (fn net) x (points (samples net)) 0
                  (replicate (getNumCoefficients net) undefined) of
             Inl e \<Rightarrow> Inl e
           | Inr basis \<Rightarrow>
               Inr (if normalized net then map (\<lambda>v. ddiv (Finite v) (sum_list basis)) basis
                    else map Finite basis))"

subsection \<open>Jacobian\<close>

text \<open>\<open>std::vector::at\<close>: the element, or the exception.\<close>

definition vector_at :: "real list \<Rightarrow> nat \<Rightarrow> error + real" where
  "vector_at v i = (if i < length v then Inr (v ! i) else Inl std_out_of_range)"

text \<open>
  The inner loop of \<open>RBFNetwork::evalJacobian\<close> for input dimension \<open>i\<close>; the four
  accumulators are \<open>(sumw, sumw_d, sum, sum_d)\<close> and \<open>j\<close> counts the samples visited.
  \<open>sumw_d\<close> and \<open>sum_d\<close> collect quotients by \<open>r\<close>, so they are of type \<open>double\<close>; the
  code divides by \<open>r\<close> only under its test \<open>r != 0\<close>.
\<close>

fun evalJacobian_loop ::
  "RBF \<Rightarrow> real list \<Rightarrow> real list \<Rightarrow> nat \<Rightarrow> DataPoint list \<Rightarrow> nat
   \<Rightarrow> real \<times> double \<times> real \<times> double \<Rightarrow> error + (real \<times> double \<times> real \<times> double)" where
  "evalJacobian_loop f w x_vec i [] j acc = Inr acc"
| "evalJacobian_loop f w x_vec i (it # rest) j (sumw, sumw_d, sum_k, sum_d) =
     (let s_vec = getX it in
      case dist_vec x_vec s_vec of
        Inl e \<Rightarrow> Inl e
      | Inr r \<Rightarrow>
          (case vector_at x_vec i of
             Inl e \<Rightarrow> Inl e
           | Inr xi \<Rightarrow>
               (case vector_at s_vec i of
                  Inl e \<Rightarrow> Inl e
                | Inr si \<Rightarrow>
                    (let ri = xi - si;
                         fv = eval_rbf f r;
                         dfdr = evalDerivative f r
                     in case vec_at w (int j) of
                          Inl e \<Rightarrow> Inl e
                        | Inr c \<Rightarrow>
                            if r \<noteq> 0
                            then evalJacobian_loop f w x_vec i rest (j + 1)
                                   (sumw + c * fv,
                                    dadd sumw_d (ddiv (Finite (c * dfdr * ri)) r),
                                    sum_k + fv,
                                    dadd sum_d (ddiv (Finite (dfdr * ri)) r))
                            else evalJacobian_loop f w x_vec i rest (j + 1)
                                   (sumw + c * fv, sumw_d, sum_k + fv, sum_d)))))"

text \<open>
  The outer loop: entry \<open>i\<close> of the 1-by-\<open>numVariables\<close> result, for each \<open>i\<close>. A
  normalized network divides by \<open>sum * sum\<close>, whatever \<open>sum\<close> is.
\<close>

fun evalJacobian_entries ::
  "RBFNetwork \<Rightarrow> real list \<Rightarrow> nat list \<Rightarrow> double DenseMatrix
   \<Rightarrow> error + double DenseMatrix" where
  "evalJacobian_entries net x_vec [] jac = Inr jac"
| "evalJacobian_entries net x_vec (i # is) jac =
     (case evalJacobian_loop (fn net) (coefficients net) x_vec i (points (samples net)) 0
             (0, 0, 0, 0) of
        Inl e \<Rightarrow> Inl e
      | Inr (sumw, sumw_d, sum_k, sum_d) \<Rightarrow>
          evalJacobian_entries net x_vec is
            (set_coeff jac 0 i
               (if normalized net
                then ddiv (dsub (dmul (Finite sum_k) sumw_d) (dmul sum_d (Finite sumw)))
                       (sum_k * sum_k)
                else sumw_d)))"

definition evalJacobian :: "RBFNetwork \<Rightarrow> real list \<Rightarrow> error + double DenseMatrix" where
  "evalJacobian net x =
     evalJacobian_entries net x [0..<numVariables net] (setZero 1 (numVariables net))"

text \<open>
  A trained network: the sample table is valid for the network's number of variables
  and there is one weight per sample.
\<close>

definition trained :: "RBFNetwork \<Rightarrow> bool" where
  "trained net =
     (valid_table (samples net) \<and> dimX (samples net) = numVariables net
      \<and> length (coefficients net) = length (points (samples net)))"

subsection \<open>The quantities the specification names\<close>

text \<open>
  These definitions follow the specification's words, not the code: the Euclidean
  distance, the kernel activation of sample \<open>i\<close> at a query point, and the sums
  \<open>sum\<close> and \<open>sumw\<close> over all samples. The theorems below compare the loops of the
  code with them.
\<close>

definition distance :: "real list \<Rightarrow> real list \<Rightarrow> real" where
  "distance x y = sqrt (\<Sum>i < length x. (x ! i - y ! i)\<^sup>2)"

definition activation :: "RBFNetwork \<Rightarrow> real list \<Rightarrow> nat \<Rightarrow> real" where
  "activation net x i = eval_rbf (fn net) (distance x (getX (points (samples net) ! i)))"

definition spec_sum :: "RBFNetwork \<Rightarrow> real list \<Rightarrow> real" where
  "spec_sum net x = (\<Sum>i < length (points (samples net)). activation net x i)"

definition spec_sumw :: "RBFNetwork \<Rightarrow> real list \<Rightarrow> real" where
  "spec_sumw net x =
     (\<Sum>i < length (points (samples net)). coefficients net ! i * activation net x i)"

text \<open>The entry of the training matrix for two samples, and of the right-hand side.\<close>

definition A_entry :: "RBF \<Rightarrow> DataPoint \<Rightarrow> DataPoint \<Rightarrow> real" where
  "A_entry f p q = eval_rbf f (distance (getX p) (getX q))"

definition b_entry :: "RBF \<Rightarrow> bool \<Rightarrow> DataPoint list \<Rightarrow> DataPoint \<Rightarrow> real" where
  "b_entry f nz all p =
     (if nz then (\<Sum>k < length all. A_entry f p (all ! k)) * getY p else getY p)"

text \<open>
  The directional term of sample \<open>p\<close> for input dimension \<open>i\<close>: the kernel's derivative
  at the distance \<open>r\<close> times \<open>ri / r\<close>, and zero when \<open>r = 0\<close>. \<open>sum_d\<close> and \<open>sumw_d\<close>
  add it up over the samples, plain and weighted. The entry of the Jacobian is
  \<open>sumw_d\<close>, and for a normalized network the quotient of
  \<open>sum * sumw_d - sum_d * sumw\<close> by \<open>sum\<^sup>2\<close>, which is not finite when \<open>sum\<close> is zero.
\<close>

definition direction :: "RBF \<Rightarrow> real list \<Rightarrow> nat \<Rightarrow> DataPoint \<Rightarrow> real" where
  "direction f x i p =
     (if distance x (getX p) \<noteq> 0
      then evalDerivative f (distance x (getX p)) * (x ! i - getX p ! i) / distance x (getX p)
      else 0)"

definition spec_sum_d :: "RBFNetwork \<Rightarrow> real list \<Rightarrow> nat \<Rightarrow> real" where
  "spec_sum_d net x i =
     (\<Sum>j < length (points (samples net)). direction (fn net) x i (points (samples net) ! j))"

definition spec_sumw_d :: "RBFNetwork \<Rightarrow> real list \<Rightarrow> nat \<Rightarrow> real" where
  "spec_sumw_d net x i =
     (\<Sum>j < length (points (samples net)).
        coefficients net ! j * direction (fn net) x i (points (samples net) ! j))"

definition spec_jacobian_entry :: "RBFNetwork \<Rightarrow> real list \<Rightarrow> nat \<Rightarrow> double" where
  "spec_jacobian_entry net x i =
     (if normalized net
      then ddiv (Finite (spec_sum net x * spec_sumw_d net x i
                           - spec_sum_d net x i * spec_sumw net x))
             ((spec_sum net x)\<^sup>2)
      else Finite (spec_sumw_d net x i))"

text \<open>The dot product of the weight vector with a basis vector.\<close>

definition dot :: "real list \<Rightarrow> real list \<Rightarrow> real" where
  "dot w v = (\<Sum>i < length w. w ! i * v ! i)"

text \<open>
  What the model assumes of the decomposition: it returns as many singular values as
  the matrix has rows or columns, whichever is less (Eigen's JacobiSVD does).
\<close>

definition svd_sized :: "(real DenseMatrix \<Rightarrow> JacobiSVD) \<Rightarrow> bool" where
  "svd_sized jacobiSVD = (\<forall>A. length (singularValues (jacobiSVD A)) = min (rows A) (cols A))"

subsection \<open>Concrete inputs\<close>

text \<open>
  Inputs on which the theorems are instantiated: a kernel with value \<open>r * r\<close> (zero at
  distance zero, so that the assembly skips the diagonal), a second kernel, a
  decomposition that reports the singular values \<open>4, 0, ..., 0\<close> and solves by returning
  the right-hand side, the one-dimensional table \<open>(0,0), (1,1), (2,0)\<close>, a normalized
  network over it with weights \<open>1, 2, 3\<close>, the same network with a kernel that is zero
  everywhere (so that the activations sum to zero), and a network without samples.
\<close>

definition ex_kernel :: RBF where
  "ex_kernel = \<lparr>eval_rbf = (\<lambda>r. r * r), evalDerivative = (\<lambda>r. 2 * r)\<rparr>"

definition ex_new :: "RBFClass \<Rightarrow> RBF" where
  "ex_new c = (case c of
       ThinPlateSpline \<Rightarrow> ex_kernel
     | _ \<Rightarrow> \<lparr>eval_rbf = (\<lambda>r. 1 + r * r), evalDerivative = (\<lambda>r. 2 * r)\<rparr>)"

definition ex_svd :: "real DenseMatrix \<Rightarrow> JacobiSVD" where
  "ex_svd A =
     (let n = min (rows A) (cols A)
      in \<lparr>singularValues = (if n = 0 then [] else 4 # replicate (n - 1) 0),
          solve = (\<lambda>b. b)\<rparr>)"

definition ex_table :: DataTable where
  "ex_table = \<lparr>dimX = 1, points = [\<lparr>getX = [0], getY = 0\<rparr>, \<lparr>getX = [1], getY = 1\<rparr>,
                                   \<lparr>getX = [2], getY = 0\<rparr>]\<rparr>"

definition ex_net :: RBFNetwork where
  "ex_net = \<lparr>numVariables = 1, samples = ex_table, type = THIN_PLATE_SPLINE,
             normalized = True, precondition = False, numSamples = 3, fn = ex_kernel,
             coefficients = [1, 2, 3]\<rparr>"

definition ex_zero_net :: RBFNetwork where
  "ex_zero_net = ex_net\<lparr>fn := \<lparr>eval_rbf = (\<lambda>r. 0), evalDerivative = (\<lambda>r. 0)\<rparr>\<rparr>"

definition ex_empty_table :: DataTable where
  "ex_empty_table = \<lparr>dimX = 1, points = []\<rparr>"

definition ex_empty_net :: RBFNetwork where
  "ex_empty_net = \<lparr>numVariables = 1, samples = ex_empty_table, type = GAUSSIAN,
                   normalized = False, precondition = False, numSamples = 0, fn = ex_kernel,
                   coefficients = []\<rparr>"

section \<open>The serializer of serializer.cpp\<close>

text \<open>
  The serializer copies the bytes of an object, so here a \<open>double\<close> is its 64-bit
  pattern, and a matrix to serialize is a \<open>DenseMatrix\<close> of such patterns. Sizes
  (\<open>size_t\<close>, Eigen's index type) are 64-bit words as well.
\<close>

type_synonym byte = "8 word"
type_synonym size_t = "64 word"
type_synonym double_bits = "64 word"

text \<open>
  The serializer object: the byte stream and the position of the read iterator in it.
  The constructor without argument leaves the stream empty.
\<close>

record Serializer =
  stream :: "byte list"
  read :: nat

definition Serializer_new :: Serializer where
  "Serializer_new = \<lparr>stream = [], read = 0\<rparr>"

subsection \<open>Scalars\<close>

text \<open>
  Modelled from the spec: the codec of the scalars (the templates \<open>_serialize\<close> and
  \<open>deserialize\<close> of serializer.h, which is not among the sources). The encoder writes
  the raw bytes of the object at the end of the stream, with no normalisation of the byte
  order; the decoder reads as many bytes at the read position and fails with an I/O
  error, instead of reading out of bounds, when the stream holds fewer. The sizes are
  those of a 64-bit platform and the byte order is little-endian; the theorems use
  neither fact beyond the number of bytes.
\<close>

definition sizeof_size :: nat where
  "sizeof_size = 8"

definition sizeof_double :: nat where
  "sizeof_double = 8"

fun to_bytes :: "nat \<Rightarrow> 64 word \<Rightarrow> byte list" where
  "to_bytes 0 w = []"
| "to_bytes (Suc n) w = ucast w # to_bytes n (drop_bit 8 w)"

fun from_bytes :: "byte list \<Rightarrow> 64 word" where
  "from_bytes [] = 0"
| "from_bytes (b # bs) = ucast b OR push_bit 8 (from_bytes bs)"

definition serialize_raw :: "byte list \<Rightarrow> Serializer \<Rightarrow> Serializer" where
  "serialize_raw bs s = s\<lparr>stream := stream s @ bs\<rparr>"

definition deserialize_raw :: "nat \<Rightarrow> Serializer \<Rightarrow> error + (byte list \<times> Serializer)" where
  "deserialize_raw n s =
     (if read s + n > length (stream s) then Inl IOError
      else Inr (take n (drop (read s) (stream s)), s\<lparr>read := read s + n\<rparr>))"

definition serialize_size :: "nat \<Rightarrow> Serializer \<Rightarrow> Serializer" where
  "serialize_size n s = serialize_raw (to_bytes sizeof_size (word_of_nat n)) s"

definition serialize_double :: "double_bits \<Rightarrow> Serializer \<Rightarrow> Serializer" where
  "serialize_double v s = serialize_raw (to_bytes sizeof_double v) s"

definition deserialize_size :: "Serializer \<Rightarrow> error + (nat \<times> Serializer)" where
  "deserialize_size s =
     (case deserialize_raw sizeof_size s of
        Inl e \<Rightarrow> Inl e
      | Inr (bs, s') \<Rightarrow> Inr (unat (from_bytes bs), s'))"

definition deserialize_double :: "Serializer \<Rightarrow> error + (double_bits \<times> Serializer)" where
  "deserialize_double s =
     (case deserialize_raw sizeof_double s of
        Inl e \<Rightarrow> Inl e
      | Inr (bs, s') \<Rightarrow> Inr (from_bytes bs, s'))"

subsection \<open>Dense matrices\<close>

text \<open>
  \<open>Serializer::get_size\<close> of a dense matrix, in the arithmetic of \<open>size_t\<close>.
\<close>

definition get_size_DenseMatrix :: "double_bits DenseMatrix \<Rightarrow> size_t" where
  "get_size_DenseMatrix obj =
     (let size0 = word_of_nat sizeof_size + word_of_nat sizeof_size;
          numElements = word_of_nat (rows obj) * word_of_nat (cols obj)
      in if numElements > 0 then size0 + numElements * word_of_nat sizeof_double else size0)"

text \<open>
  \<open>Serializer::_serialize\<close> of a dense matrix (an Isabelle name cannot start with an
  underscore): the number of rows, the number of columns, then the elements row by row.
\<close>

definition serialize_DenseMatrix :: "double_bits DenseMatrix \<Rightarrow> Serializer \<Rightarrow> Serializer" where
  "serialize_DenseMatrix obj s =
     (let s1 = serialize_size (rows obj) s;
          s2 = serialize_size (cols obj) s1
      in fold (\<lambda>i. fold (\<lambda>j. serialize_double (coeff obj (i, j))) [0..<cols obj])
           [0..<rows obj] s2)"

text \<open>
  \<open>Serializer::deserialize\<close> of a dense matrix: the inner loop over the columns \<open>j\<close>
  of row \<open>i\<close>, the outer loop over the rows, and the function. \<open>resize\<close> sets the
  dimensions; the elements it leaves are all overwritten by the loops.
\<close>

fun deserialize_row ::
  "nat \<Rightarrow> nat list \<Rightarrow> double_bits DenseMatrix \<Rightarrow> Serializer
   \<Rightarrow> error + (double_bits DenseMatrix \<times> Serializer)" where
  "deserialize_row i [] obj s = Inr (obj, s)"
| "deserialize_row i (j # js) obj s =
     (case deserialize_double s of
        Inl e \<Rightarrow> Inl e
      | Inr (v, s') \<Rightarrow> deserialize_row i js (set_coeff obj i j v) s')"

fun deserialize_rows ::
  "nat list \<Rightarrow> nat list \<Rightarrow> double_bits DenseMatrix \<Rightarrow> Serializer
   \<Rightarrow> error + (double_bits DenseMatrix \<times> Serializer)" where
  "deserialize_rows [] js obj s = Inr (obj, s)"
| "deserialize_rows (i # is) js obj s =
     (case deserialize_row i js obj s of
        Inl e \<Rightarrow> Inl e
      | Inr (obj', s') \<Rightarrow> deserialize_rows is js obj' s')"

definition resize :: "'a DenseMatrix \<Rightarrow> nat \<Rightarrow> nat \<Rightarrow> 'a DenseMatrix" where
  "resize obj r c = obj\<lparr>rows := r, cols := c\<rparr>"

definition deserialize_DenseMatrix ::
  "double_bits DenseMatrix \<Rightarrow> Serializer \<Rightarrow> error + (double_bits DenseMatrix \<times> Serializer)" where
  "deserialize_DenseMatrix obj s =
     (case deserialize_size s of
        Inl e \<Rightarrow> Inl e
      | Inr (r, s1) \<Rightarrow>
          (case deserialize_size s1 of
             Inl e \<Rightarrow> Inl e
           | Inr (c, s2) \<Rightarrow> deserialize_rows [0..<r] [0..<c] (resize obj r c) s2))"

text \<open>
  The bytes the specification prescribes for a matrix: the number of rows, the number
  of columns, then the elements in row-major order.
\<close>

definition row_bytes :: "double_bits DenseMatrix \<Rightarrow> nat \<Rightarrow> nat list \<Rightarrow> byte list" where
  "row_bytes m i js = concat (map (\<lambda>j. to_bytes sizeof_double (coeff m (i, j))) js)"

definition rows_bytes :: "double_bits DenseMatrix \<Rightarrow> nat list \<Rightarrow> nat list \<Rightarrow> byte list" where
  "rows_bytes m idx js = concat (map (\<lambda>i. row_bytes m i js) idx)"

definition matrix_bytes :: "double_bits DenseMatrix \<Rightarrow> byte list" where
  "matrix_bytes m = to_bytes sizeof_size (word_of_nat (rows m))
     @ to_bytes sizeof_size (word_of_nat (cols m))
     @ rows_bytes m [0..<rows m] [0..<cols m]"

subsection \<open>Files\<close>

text \<open>
  The file system: the content a name has when it is read, the names that can be opened
  for output and keep what is written to them, and the names that can be opened for
  input.
\<close>

record FileSystem =
  contents :: "string \<rightharpoonup> byte list"
  opens_for_output :: "string \<Rightarrow> bool"
  opens_for_input :: "string \<Rightarrow> bool"

text \<open>
  \<open>saveToFile\<close> opens the file for output and writes the stream to it byte by byte. It
  does not check that the file opened: when it did not, nothing is written and nothing
  is raised.
\<close>

definition saveToFile :: "string \<Rightarrow> Serializer \<Rightarrow> FileSystem \<Rightarrow> FileSystem" where
  "saveToFile fileName s fs =
     (if opens_for_output fs fileName
      then fs\<lparr>contents := (contents fs)(fileName \<mapsto> stream s)\<rparr>
      else fs)"

text \<open>
  \<open>loadFromFile\<close> raises when the file does not open for input (it is missing or may
  not be read); otherwise it reads the whole file into the stream and sets the read
  iterator to its start. The constructor with a file name loads the file.
\<close>

definition loadFromFile :: "string \<Rightarrow> FileSystem \<Rightarrow> Serializer \<Rightarrow> error + Serializer" where
  "loadFromFile fileName fs s =
     (case (if opens_for_input fs fileName then contents fs fileName else None) of
        None \<Rightarrow>
          Inl (Exception (''Serializer::loadFromFile: Unable to open file '' @ [CHR 0x22]
                 @ fileName @ [CHR 0x22] @ '' for deserializing.''))
      | Some bytes \<Rightarrow> Inr (s\<lparr>stream := bytes, read := 0\<rparr>))"

definition Serializer_from_file :: "string \<Rightarrow> FileSystem \<Rightarrow> error + Serializer" where
  "Serializer_from_file fileName fs = loadFromFile fileName fs Serializer_new"

text \<open>
  A matrix that exists in memory: its dimensions are values of the 64-bit index type
  and its serialized size is a value of \<open>size_t\<close>.
\<close>

definition in_memory :: "double_bits DenseMatrix \<Rightarrow> bool" where
  "in_memory m =
     (rows m < 2 ^ 64 \<and> cols m < 2 ^ 64
      \<and> 2 * sizeof_size + rows m * cols m * sizeof_double < 2 ^ 64)"

text \<open>
  A 5-by-3 matrix, a file system without files in which every name but the empty one
  opens, and a file name, for the examples.
\<close>

definition ex_files :: FileSystem where
  "ex_files = \<lparr>contents = Map.empty, opens_for_output = (\<lambda>n. n \<noteq> []),
                 opens_for_input = (\<lambda>n. n \<noteq> [])\<rparr>"

definition ex_file_name :: string where
  "ex_file_name = ''m.bin''"


definition ex_matrix :: "double_bits DenseMatrix" where
  "ex_matrix = \<lparr>rows = 5, cols = 3, coeff = (\<lambda>(i, j). word_of_nat (1000 * i + j) * 0x0123456789ABCDEF)\<rparr>"

section \<open>Properties of the RBF network\<close>

subsection \<open>Distance\<close>

lemma fold_add_upt: "fold (\<lambda>i s. s + g i) [0..<n] (a::real) = a + (\<Sum>i < n. g i)"
  by (induction n) simp_all

lemma dist_vec_distance: "length x = length y \<Longrightarrow> dist_vec x y = Inr (distance x y)"
  by (simp add: dist_vec_def distance_def fold_add_upt power2_eq_square)

lemma dist_vec_mismatch:
  "length x \<noteq> length y \<Longrightarrow>
   dist_vec x y = Inl (Exception ''RBFNetwork::dist: Cannot measure distance between two points of different dimension'')"
  by (simp add: dist_vec_def)

lemma distance_commute: "length x = length y \<Longrightarrow> distance x y = distance y x"
  by (simp add: distance_def power2_commute)

subsection \<open>Assembly of the linear system\<close>

lemma assemble_row_result:
  "list_all (\<lambda>p. length (getX p) = length (getX it1)) ps \<Longrightarrow>
   \<exists>A'. assemble_row f it1 ps i j A s = Inr (A', s + (\<Sum>k < length ps. A_entry f it1 (ps ! k)))
     \<and> rows A' = rows A \<and> cols A' = cols A
     \<and> (\<forall>a c. coeff A' (a, c) =
           (if a = i \<and> j \<le> c \<and> c < j + length ps \<and> A_entry f it1 (ps ! (c - j)) \<noteq> 0
            then A_entry f it1 (ps ! (c - j)) else coeff A (a, c)))"
proof (induction ps arbitrary: j A s)
  case Nil
  then show ?case by simp
next
  case (Cons p ps)
  from Cons.prems have len: "length (getX it1) = length (getX p)"
    and rest: "list_all (\<lambda>p. length (getX p) = length (getX it1)) ps"
    by simp_all
  define v where "v = A_entry f it1 p"
  define A1 where "A1 = (if v \<noteq> 0 then set_coeff A i j v else A)"
  define s1 where "s1 = s + v"
  have step: "assemble_row f it1 (p # ps) i j A s = assemble_row f it1 ps i (j + 1) A1 s1"
    by (simp add: dist_point_def dist_vec_distance [OF len] Let_def v_def A1_def s1_def A_entry_def)
  from Cons.IH [OF rest, of "j + 1" A1 s1] obtain A' where
    run: "assemble_row f it1 ps i (j + 1) A1 s1
            = Inr (A', s1 + (\<Sum>k < length ps. A_entry f it1 (ps ! k)))"
    and dims: "rows A' = rows A1" "cols A' = cols A1"
    and ent: "\<And>a c. coeff A' (a, c) =
           (if a = i \<and> j + 1 \<le> c \<and> c < j + 1 + length ps
               \<and> A_entry f it1 (ps ! (c - (j + 1))) \<noteq> 0
            then A_entry f it1 (ps ! (c - (j + 1))) else coeff A1 (a, c))"
    by blast
  have sum_eq: "s1 + (\<Sum>k < length ps. A_entry f it1 (ps ! k))
      = s + (\<Sum>k < length (p # ps). A_entry f it1 ((p # ps) ! k))"
    by (simp add: s1_def v_def sum.lessThan_Suc_shift del: sum.lessThan_Suc)
  have dims1: "rows A1 = rows A" "cols A1 = cols A"
    by (simp_all add: A1_def set_coeff_def)
  have ent1: "coeff A' (a, c) =
           (if a = i \<and> j \<le> c \<and> c < j + length (p # ps) \<and> A_entry f it1 ((p # ps) ! (c - j)) \<noteq> 0
            then A_entry f it1 ((p # ps) ! (c - j)) else coeff A (a, c))" for a c
  proof (cases "c = j")
    case True
    then show ?thesis by (simp add: ent A1_def set_coeff_def v_def)
  next
    case False
    then have "c - j = Suc (c - (j + 1)) \<or> c < j" by arith
    with False show ?thesis
      by (auto simp: ent A1_def set_coeff_def)
  qed
  show ?case
    unfolding step using run dims dims1 ent1 sum_eq by simp
qed

lemma assemble_rows_result:
  "list_all (\<lambda>p. length (getX p) = d) all \<Longrightarrow> list_all (\<lambda>p. length (getX p) = d) rest \<Longrightarrow>
   \<exists>A' b'. assemble_rows f nz all rest i A b = Inr (A', b')
     \<and> rows A' = rows A \<and> cols A' = cols A \<and> length b' = length b
     \<and> (\<forall>a c. coeff A' (a, c) =
           (if i \<le> a \<and> a < i + length rest \<and> c < length all
               \<and> A_entry f (rest ! (a - i)) (all ! c) \<noteq> 0
            then A_entry f (rest ! (a - i)) (all ! c) else coeff A (a, c)))
     \<and> (\<forall>a < length b. b' ! a =
           (if i \<le> a \<and> a < i + length rest then b_entry f nz all (rest ! (a - i)) else b ! a))"
proof (induction rest arbitrary: i A b)
  case Nil
  then show ?case by simp
next
  case (Cons p rest)
  from Cons.prems have all_p: "list_all (\<lambda>q. length (getX q) = length (getX p)) all"
    and rest: "list_all (\<lambda>p. length (getX p) = d) rest"
    by (simp_all add: list_all_iff)
  from assemble_row_result [OF all_p, of f i 0 A 0] obtain A1 where
    row: "assemble_row f p all i 0 A 0 = Inr (A1, \<Sum>k < length all. A_entry f p (all ! k))"
    and dims1: "rows A1 = rows A" "cols A1 = cols A"
    and ent1: "\<And>a c. coeff A1 (a, c) =
           (if a = i \<and> c < length all \<and> A_entry f p (all ! c) \<noteq> 0
            then A_entry f p (all ! c) else coeff A (a, c))"
    by auto
  define b1 where "b1 = b[i := b_entry f nz all p]"
  have step: "assemble_rows f nz all (p # rest) i A b = assemble_rows f nz all rest (i + 1) A1 b1"
    by (simp add: row b1_def b_entry_def)
  from Cons.IH [OF Cons.prems(1) rest, of "i + 1" A1 b1] obtain A' b' where
    run: "assemble_rows f nz all rest (i + 1) A1 b1 = Inr (A', b')"
    and dims: "rows A' = rows A1" "cols A' = cols A1" "length b' = length b1"
    and ent: "\<And>a c. coeff A' (a, c) =
           (if i + 1 \<le> a \<and> a < i + 1 + length rest \<and> c < length all
               \<and> A_entry f (rest ! (a - (i + 1))) (all ! c) \<noteq> 0
            then A_entry f (rest ! (a - (i + 1))) (all ! c) else coeff A1 (a, c))"
    and rhs: "\<And>a. a < length b1 \<Longrightarrow> b' ! a =
           (if i + 1 \<le> a \<and> a < i + 1 + length rest then b_entry f nz all (rest ! (a - (i + 1)))
            else b1 ! a)"
    by blast
  have entA: "coeff A' (a, c) =
           (if i \<le> a \<and> a < i + length (p # rest) \<and> c < length all
               \<and> A_entry f ((p # rest) ! (a - i)) (all ! c) \<noteq> 0
            then A_entry f ((p # rest) ! (a - i)) (all ! c) else coeff A (a, c))" for a c
  proof (cases "a = i")
    case True
    then show ?thesis by (simp add: ent ent1)
  next
    case False
    then have "a - i = Suc (a - (i + 1)) \<or> a < i" by arith
    with False show ?thesis
      by (auto simp: ent ent1)
  qed
  have entb: "b' ! a =
           (if i \<le> a \<and> a < i + length (p # rest) then b_entry f nz all ((p # rest) ! (a - i))
            else b ! a)" if "a < length b" for a
  proof (cases "a = i")
    case True
    with that show ?thesis by (simp add: rhs b1_def)
  next
    case False
    then have "a - i = Suc (a - (i + 1)) \<or> a < i" by arith
    with False that show ?thesis
      by (auto simp: rhs b1_def)
  qed
  show ?case
    unfolding step using run dims dims1 entA entb by (simp add: b1_def)
qed

lemma assemble_result:
  assumes "valid_table s"
  shows "\<exists>A b. assemble f nz s (getNumSamples s) = Inr (A, b)
     \<and> rows A = getNumSamples s \<and> cols A = getNumSamples s \<and> length b = getNumSamples s
     \<and> (\<forall>i j. i < getNumSamples s \<and> j < getNumSamples s \<longrightarrow>
            coeff A (i, j) = A_entry f (points s ! i) (points s ! j))
     \<and> (\<forall>i < getNumSamples s. b ! i = b_entry f nz (points s) (points s ! i))"
proof -
  from assms have ok: "list_all (\<lambda>p. length (getX p) = dimX s) (points s)"
    by (simp add: valid_table_def)
  from assemble_rows_result [OF ok ok, of f nz 0 "setZero (getNumSamples s) (getNumSamples s)"
      "replicate (getNumSamples s) 0"]
  show ?thesis
    by (auto simp: assemble_def setZero_def getNumSamples_def)
qed

text \<open>
  Claim C2. For every valid sample table and every kernel, the assembly returns a matrix
  \<open>A\<close> and a vector \<open>b\<close> of the table's size with \<open>A(i, j)\<close> the kernel's value at the
  distance between samples \<open>i\<close> and \<open>j\<close>, for every ordered pair, and \<open>b(i)\<close> the output
  \<open>y\<close> of sample \<open>i\<close>, multiplied by the sum of row \<open>i\<close> of \<open>A\<close> when the network is
  normalized. Skipping the kernel values that are zero changes neither.
\<close>

theorem assemble_system:
  assumes "valid_table s"
  shows "\<exists>A b. assemble f nz s (getNumSamples s) = Inr (A, b)
     \<and> rows A = getNumSamples s \<and> cols A = getNumSamples s \<and> length b = getNumSamples s
     \<and> (\<forall>i < getNumSamples s. \<forall>j < getNumSamples s.
            coeff A (i, j) = eval_rbf f (distance (getX (points s ! i)) (getX (points s ! j))))
     \<and> (\<forall>i < getNumSamples s.
            b ! i = (if nz then (\<Sum>j < getNumSamples s. coeff A (i, j)) * getY (points s ! i)
                     else getY (points s ! i)))"
proof -
  from assemble_result [OF assms, of f nz] obtain A b where
    run: "assemble f nz s (getNumSamples s) = Inr (A, b)"
    and dims: "rows A = getNumSamples s" "cols A = getNumSamples s" "length b = getNumSamples s"
    and ent: "\<And>i j. i < getNumSamples s \<Longrightarrow> j < getNumSamples s \<Longrightarrow>
            coeff A (i, j) = A_entry f (points s ! i) (points s ! j)"
    and rhs: "\<And>i. i < getNumSamples s \<Longrightarrow> b ! i = b_entry f nz (points s) (points s ! i)"
    by blast
  have row_sum: "(\<Sum>j < getNumSamples s. coeff A (i, j))
      = (\<Sum>k < length (points s). A_entry f (points s ! i) (points s ! k))"
    if "i < getNumSamples s" for i
    using that by (simp add: ent getNumSamples_def)
  show ?thesis
    using run dims by (auto simp: ent rhs row_sum b_entry_def A_entry_def getNumSamples_def)
qed

theorem assemble_system_witness:
  "valid_table ex_table
   \<and> (\<exists>A b. assemble ex_kernel True ex_table (getNumSamples ex_table) = Inr (A, b)
         \<and> coeff A (0, 1) = 1 \<and> coeff A (0, 2) = 4 \<and> coeff A (1, 1) = 0 \<and> b ! 1 = 2)"
proof -
  have valid: "valid_table ex_table"
    by (simp add: valid_table_def ex_table_def)
  have n: "getNumSamples ex_table = Suc (Suc (Suc 0))"
    by (simp add: getNumSamples_def ex_table_def)
  from assemble_system [OF valid, of ex_kernel True] obtain A b where
    run: "assemble ex_kernel True ex_table (getNumSamples ex_table) = Inr (A, b)"
    and ent: "\<And>i j. i < getNumSamples ex_table \<Longrightarrow> j < getNumSamples ex_table \<Longrightarrow>
            coeff A (i, j) = eval_rbf ex_kernel
              (distance (getX (points ex_table ! i)) (getX (points ex_table ! j)))"
    and rhs: "\<And>i. i < getNumSamples ex_table \<Longrightarrow>
            b ! i = (\<Sum>j < getNumSamples ex_table. coeff A (i, j)) * getY (points ex_table ! i)"
    by auto
  have pts: "points ex_table = [\<lparr>getX = [0], getY = 0\<rparr>, \<lparr>getX = [1], getY = 1\<rparr>,
                                \<lparr>getX = [2], getY = 0\<rparr>]"
    by (simp add: ex_table_def)
  have a01: "coeff A (0, 1) = 1"
    using ent [of 0 1] by (simp add: n pts ex_kernel_def distance_def)
  have a02: "coeff A (0, 2) = 4"
    using ent [of 0 2] by (simp add: n pts ex_kernel_def distance_def eval_nat_numeral)
  have a10: "coeff A (1, 0) = 1"
    using ent [of 1 0] by (simp add: n pts ex_kernel_def distance_def)
  have a11: "coeff A (1, 1) = 0"
    using ent [of 1 1] by (simp add: n pts ex_kernel_def distance_def)
  have a12: "coeff A (1, 2) = 1"
    using ent [of 1 2] by (simp add: n pts ex_kernel_def distance_def eval_nat_numeral)
  have "b ! 1 = 2"
    using rhs [of 1] a10 a11 a12 by (simp add: n pts eval_nat_numeral)
  with valid run a01 a02 a11 show ?thesis
    by blast
qed

lemma A_entry_commute:
  "length (getX p) = length (getX q) \<Longrightarrow> A_entry f p q = A_entry f q p"
  by (simp add: A_entry_def distance_commute)

text \<open>
  Claim C8. For every valid sample table and every kernel, the assembled training matrix
  is symmetric: \<open>A(i, j) = A(j, i)\<close> for all \<open>i\<close> and \<open>j\<close> below the number of samples,
  the Euclidean distance being symmetric in its two arguments. (A table without
  samples is included: its matrix has no entry.)
\<close>

theorem assemble_symmetric:
  assumes "valid_table s"
  shows "\<exists>A b. assemble f nz s (getNumSamples s) = Inr (A, b)
     \<and> (\<forall>i < getNumSamples s. \<forall>j < getNumSamples s. coeff A (i, j) = coeff A (j, i))"
proof -
  from assemble_result [OF assms, of f nz] obtain A b where
    run: "assemble f nz s (getNumSamples s) = Inr (A, b)"
    and ent: "\<And>i j. i < getNumSamples s \<Longrightarrow> j < getNumSamples s \<Longrightarrow>
            coeff A (i, j) = A_entry f (points s ! i) (points s ! j)"
    by blast
  have "coeff A (i, j) = coeff A (j, i)" if "i < getNumSamples s" "j < getNumSamples s" for i j
  proof -
    from assms that have "length (getX (points s ! i)) = length (getX (points s ! j))"
      by (simp add: valid_table_def getNumSamples_def list_all_length)
    with that show ?thesis
      by (simp add: ent A_entry_commute)
  qed
  with run show ?thesis
    by blast
qed

theorem assemble_symmetric_witness:
  "valid_table ex_table
   \<and> (\<exists>A b. assemble ex_kernel False ex_table (getNumSamples ex_table) = Inr (A, b)
         \<and> coeff A (0, 2) = coeff A (2, 0) \<and> coeff A (1, 2) = coeff A (2, 1))"
proof -
  have valid: "valid_table ex_table"
    by (simp add: valid_table_def ex_table_def)
  have n: "getNumSamples ex_table = Suc (Suc (Suc 0))"
    by (simp add: getNumSamples_def ex_table_def)
  from assemble_symmetric [OF valid, of ex_kernel False] obtain A b where
    run: "assemble ex_kernel False ex_table (getNumSamples ex_table) = Inr (A, b)"
    and sym: "\<And>i j. i < getNumSamples ex_table \<Longrightarrow> j < getNumSamples ex_table \<Longrightarrow>
            coeff A (i, j) = coeff A (j, i)"
    by auto
  have "coeff A (0, 2) = coeff A (2, 0)"
    using sym [of 0 2] by (simp add: n)
  moreover have "coeff A (1, 2) = coeff A (2, 1)"
    using sym [of 1 2] by (simp add: n)
  ultimately show ?thesis
    using valid run by blast
qed

subsection \<open>Evaluation\<close>

lemma eval_loop_sums:
  "list_all (\<lambda>p. length (getX p) = length xv) ps \<Longrightarrow> i + length ps \<le> length w \<Longrightarrow>
   eval_loop f w xv ps i s sw =
     Inr (s + (\<Sum>k < length ps. eval_rbf f (distance xv (getX (ps ! k)))),
          sw + (\<Sum>k < length ps. w ! (i + k) * eval_rbf f (distance xv (getX (ps ! k)))))"
proof (induction ps arbitrary: i s sw)
  case Nil
  then show ?case by simp
next
  case (Cons p ps)
  from Cons.prems have len: "length xv = length (getX p)"
    and rest: "list_all (\<lambda>p. length (getX p) = length xv) ps"
    and bound: "Suc i + length ps \<le> length w" and here: "i < length w"
    by simp_all
  show ?case
    using Cons.IH [OF rest bound] here
    by (simp add: dist_vec_distance [OF len] vec_at_def Let_def sum.lessThan_Suc_shift add.assoc
          del: sum.lessThan_Suc)
qed

lemma trained_lengths:
  assumes "trained net" and "length x = numVariables net"
  shows "list_all (\<lambda>p. length (getX p) = length x) (points (samples net))"
    and "length (coefficients net) = length (points (samples net))"
  using assms by (auto simp: trained_def valid_table_def)

lemma eval_result:
  assumes "trained net" and "length x = numVariables net"
  shows "eval net x =
     Inr (if normalized net then ddiv (Finite (spec_sumw net x)) (spec_sum net x)
          else Finite (spec_sumw net x))"
proof -
  from trained_lengths [OF assms]
  have ok: "list_all (\<lambda>p. length (getX p) = length x) (points (samples net))"
    and len: "0 + length (points (samples net)) \<le> length (coefficients net)"
    by simp_all
  show ?thesis
    using assms(2) eval_loop_sums [OF ok len, of "fn net" 0 0]
    by (simp add: eval_def spec_sum_def spec_sumw_def activation_def)
qed

lemma ddiv_finite: "b \<noteq> 0 \<Longrightarrow> ddiv (Finite a) b = Finite (a / b)"
  by simp

lemma ex_net_trained: "trained ex_net"
  by (simp add: trained_def valid_table_def ex_net_def ex_table_def)

lemma ex_net_fields:
  "numVariables ex_net = 1" "normalized ex_net" "fn ex_net = ex_kernel"
  "coefficients ex_net = [1, 2, 3]"
  "points (samples ex_net) = [\<lparr>getX = [0], getY = 0\<rparr>, \<lparr>getX = [1], getY = 1\<rparr>,
                              \<lparr>getX = [2], getY = 0\<rparr>]"
  by (simp_all add: ex_net_def ex_table_def)

lemma ex_net_activation:
  "activation ex_net [1] 0 = 1" "activation ex_net [1] (Suc 0) = 0"
  "activation ex_net [1] (Suc (Suc 0)) = 1"
  by (simp_all add: activation_def ex_net_fields ex_kernel_def distance_def)

lemma ex_net_sums: "spec_sum ex_net [1] = 2" "spec_sumw ex_net [1] = 4"
  by (simp_all add: spec_sum_def spec_sumw_def ex_net_fields ex_net_activation)

lemma ex_zero_net_trained: "trained ex_zero_net"
  by (simp add: trained_def valid_table_def ex_zero_net_def ex_net_def ex_table_def)

lemma ex_zero_net_fields:
  "numVariables ex_zero_net = 1" "normalized ex_zero_net"
  "length (points (samples ex_zero_net)) = 3"
  by (simp_all add: ex_zero_net_def ex_net_def ex_table_def)

lemma ex_zero_net_sums: "spec_sum ex_zero_net x = 0" "spec_sumw ex_zero_net x = 0"
  by (simp_all add: spec_sum_def spec_sumw_def activation_def ex_zero_net_def)

text \<open>
  Claim C3. For every trained network and every query vector \<open>x\<close> with \<open>numVariables\<close>
  entries, \<open>eval\<close> returns \<open>sumw / sum\<close> when the network is normalized and \<open>sumw\<close>
  otherwise, where \<open>sumw\<close> is the sum over all samples of the weight times the kernel
  value at the distance from \<open>x\<close> to the sample, and \<open>sum\<close> the sum of the kernel values.
  The quotient is the double's: not finite when \<open>sum\<close> is zero.
\<close>

theorem eval_value:
  assumes "trained net" and "length x = numVariables net"
  shows "eval net x =
     Inr (if normalized net
          then ddiv (Finite (\<Sum>i < length (points (samples net)).
                       coefficients net ! i
                         * eval_rbf (fn net) (distance x (getX (points (samples net) ! i)))))
                 (\<Sum>i < length (points (samples net)).
                    eval_rbf (fn net) (distance x (getX (points (samples net) ! i))))
          else Finite (\<Sum>i < length (points (samples net)).
                  coefficients net ! i
                    * eval_rbf (fn net) (distance x (getX (points (samples net) ! i)))))"
  using eval_result [OF assms] by (simp only: spec_sum_def spec_sumw_def activation_def)

theorem eval_value_witness:
  "trained ex_net \<and> length [1::real] = numVariables ex_net
   \<and> eval ex_net [1] = Inr (Finite 2)
   \<and> trained ex_zero_net \<and> length [1::real] = numVariables ex_zero_net
   \<and> eval ex_zero_net [1] = Inr NotFinite"
proof -
  have len: "length [1::real] = numVariables ex_net"
    by (simp add: ex_net_fields)
  from eval_value [OF ex_net_trained len] have finite: "eval ex_net [1] = Inr (Finite 2)"
    by (simp add: ex_net_fields ex_kernel_def distance_def)
  have len0: "length [1::real] = numVariables ex_zero_net"
    by (simp add: ex_zero_net_fields)
  from eval_value [OF ex_zero_net_trained len0] have "eval ex_zero_net [1] = Inr NotFinite"
    by (simp add: ex_zero_net_fields(2)) (simp add: ex_zero_net_def)
  with ex_net_trained len finite ex_zero_net_trained len0 show ?thesis
    by blast
qed

subsection \<open>Basis vector\<close>

lemma evalBasis_loop_result:
  "list_all (\<lambda>p. length (getX p) = length xv) ps \<Longrightarrow> i + length ps \<le> length basis \<Longrightarrow>
   evalBasis_loop f xv ps i basis =
     Inr (take i basis @ map (\<lambda>p. eval_rbf f (distance xv (getX p))) ps
          @ drop (i + length ps) basis)"
proof (induction ps arbitrary: i basis)
  case Nil
  then show ?case by simp
next
  case (Cons p ps)
  from Cons.prems have len: "length xv = length (getX p)"
    and rest: "list_all (\<lambda>p. length (getX p) = length xv) ps"
    and here: "i < length basis"
    by simp_all
  define v where "v = eval_rbf f (distance xv (getX p))"
  from Cons.prems have bound: "Suc i + length ps \<le> length (basis[i := v])"
    by simp
  have "take (Suc i) (basis[i := v]) = take i basis @ [v]"
    using here by (simp add: take_Suc_conv_app_nth)
  then show ?case
    using Cons.IH [OF rest bound] here
    by (simp add: dist_vec_distance [OF len] v_def)
qed

lemma sum_list_nth_real: "sum_list (xs :: real list) = (\<Sum>i < length xs. xs ! i)"
  by (simp add: sum_list_sum_nth atLeast0LessThan)

lemma evalBasis_result:
  assumes "trained net" and "length x = numVariables net"
  shows "evalBasis net x =
     Inr (if normalized net
          then map (\<lambda>i. ddiv (Finite (activation net x i)) (spec_sum net x))
                 [0..<length (points (samples net))]
          else map (\<lambda>i. Finite (activation net x i)) [0..<length (points (samples net))])"
proof -
  let ?ps = "points (samples net)"
  from trained_lengths [OF assms]
  have ok: "list_all (\<lambda>p. length (getX p) = length x) ?ps"
    and len: "length (coefficients net) = length ?ps"
    by simp_all
  have raw: "map (\<lambda>p. eval_rbf (fn net) (distance x (getX p))) ?ps
      = map (activation net x) [0..<length ?ps]"
    by (rule nth_equalityI) (simp_all add: activation_def)
  have loop: "evalBasis_loop (fn net) x ?ps 0 (replicate (getNumCoefficients net) undefined)
      = Inr (map (activation net x) [0..<length ?ps])"
    using evalBasis_loop_result [OF ok, of 0 "replicate (getNumCoefficients net) undefined" "fn net"]
      len raw
    by (simp add: getNumCoefficients_def)
  have total: "sum_list (map (activation net x) [0..<length ?ps]) = spec_sum net x"
    by (simp add: sum_list_nth_real spec_sum_def)
  show ?thesis
    using assms(2) by (simp add: evalBasis_def loop total comp_def)
qed

lemma evalBasis_finite:
  assumes "trained net" and "length x = numVariables net"
    and "normalized net \<longrightarrow> spec_sum net x \<noteq> 0"
  shows "evalBasis net x =
     Inr (map Finite
            (if normalized net
             then map (\<lambda>i. activation net x i / spec_sum net x)
                    [0..<length (points (samples net))]
             else map (activation net x) [0..<length (points (samples net))]))"
  using evalBasis_result [OF assms(1,2)] assms(3) by (simp add: comp_def)

text \<open>
  Claim C6. For every trained, normalized network and every query \<open>x\<close> with
  \<open>numVariables\<close> entries for which the sum of the kernel activations is not zero, the
  entries of \<open>evalBasis x\<close> are finite and sum to 1.
\<close>

theorem evalBasis_sums_to_one:
  assumes "trained net" and "normalized net" and "length x = numVariables net"
    and "spec_sum net x \<noteq> 0"
  shows "\<exists>basis. evalBasis net x = Inr (map Finite basis) \<and> sum_list basis = 1"
proof -
  let ?n = "length (points (samples net))"
  have "sum_list (map (\<lambda>i. activation net x i / spec_sum net x) [0..<?n])
      = (\<Sum>i < ?n. activation net x i / spec_sum net x)"
    by (simp add: sum_list_nth_real)
  also have "\<dots> = (\<Sum>i < ?n. activation net x i) / spec_sum net x"
    by (simp add: sum_divide_distrib)
  also have "\<dots> = spec_sum net x / spec_sum net x"
    by (simp add: spec_sum_def)
  also have "\<dots> = 1"
    using assms(4) by simp
  finally have "sum_list (map (\<lambda>i. activation net x i / spec_sum net x) [0..<?n]) = 1" .
  moreover have "evalBasis net x
      = Inr (map Finite (map (\<lambda>i. activation net x i / spec_sum net x) [0..<?n]))"
    using evalBasis_finite [OF assms(1,3)] assms(2,4) by simp
  ultimately show ?thesis
    by blast
qed

theorem evalBasis_sums_to_one_witness:
  "trained ex_net \<and> normalized ex_net \<and> length [1::real] = numVariables ex_net
   \<and> spec_sum ex_net [1] = 2
   \<and> (\<exists>basis. evalBasis ex_net [1] = Inr (map Finite basis) \<and> sum_list basis = 1)"
proof -
  have len: "length [1::real] = numVariables ex_net"
    by (simp add: ex_net_fields)
  have nonzero: "spec_sum ex_net [1] \<noteq> 0"
    by (simp add: ex_net_sums)
  from evalBasis_sums_to_one [OF ex_net_trained ex_net_fields(2) len nonzero]
  show ?thesis
    using ex_net_trained ex_net_fields(2) len ex_net_sums(1) by blast
qed

text \<open>
  Claim C7. For every trained network and every query \<open>x\<close> with \<open>numVariables\<close> entries
  (and a nonzero sum of activations when the network is normalized), the basis vector
  and the value of \<open>eval x\<close> are finite and the dot product of the weight vector with
  \<open>evalBasis x\<close> equals \<open>eval x\<close>.
\<close>

theorem weights_dot_basis:
  assumes "trained net" and "length x = numVariables net"
    and "normalized net \<longrightarrow> spec_sum net x \<noteq> 0"
  shows "\<exists>basis y. evalBasis net x = Inr (map Finite basis) \<and> eval net x = Inr (Finite y)
     \<and> dot (coefficients net) basis = y"
proof -
  let ?n = "length (points (samples net))"
  from trained_lengths [OF assms(1,2)] have len: "length (coefficients net) = ?n"
    by simp
  have plain: "dot (coefficients net) (map (activation net x) [0..<?n]) = spec_sumw net x"
    by (simp add: dot_def len spec_sumw_def)
  have scaled: "dot (coefficients net) (map (\<lambda>i. activation net x i / spec_sum net x) [0..<?n])
      = spec_sumw net x / spec_sum net x"
    by (simp add: dot_def len spec_sumw_def sum_divide_distrib)
  have result: "eval net x =
      Inr (Finite (if normalized net then spec_sumw net x / spec_sum net x
                   else spec_sumw net x))"
    using eval_result [OF assms(1,2)] assms(3) by simp
  show ?thesis
  proof (cases "normalized net")
    case True
    with evalBasis_finite [OF assms] result scaled show ?thesis
      by (metis (full_types))
  next
    case False
    with evalBasis_finite [OF assms] result plain show ?thesis
      by (metis (full_types))
  qed
qed

theorem weights_dot_basis_witness:
  "trained ex_net \<and> length [1::real] = numVariables ex_net \<and> spec_sum ex_net [1] = 2
   \<and> (\<exists>basis. evalBasis ex_net [1] = Inr (map Finite basis) \<and> eval ex_net [1] = Inr (Finite 2)
         \<and> dot (coefficients ex_net) basis = 2)"
proof -
  have len: "length [1::real] = numVariables ex_net"
    by (simp add: ex_net_fields)
  have nonzero: "normalized ex_net \<longrightarrow> spec_sum ex_net [1] \<noteq> 0"
    by (simp add: ex_net_sums)
  have result: "eval ex_net [1] = Inr (Finite 2)"
    using eval_result [OF ex_net_trained len] by (simp add: ex_net_fields ex_net_sums)
  from weights_dot_basis [OF ex_net_trained len nonzero] result
  have "\<exists>basis. evalBasis ex_net [1] = Inr (map Finite basis) \<and> eval ex_net [1] = Inr (Finite 2)
         \<and> dot (coefficients ex_net) basis = 2"
    by auto
  with ex_net_trained len ex_net_sums(1) show ?thesis
    by blast
qed

subsection \<open>Jacobian\<close>

lemma evalJacobian_loop_sums:
  "list_all (\<lambda>p. length (getX p) = length x) ps \<Longrightarrow> j + length ps \<le> length w \<Longrightarrow>
   i < length x \<Longrightarrow>
   evalJacobian_loop f w x i ps j (sw, Finite swd, sk, Finite sd) =
     Inr (sw + (\<Sum>k < length ps. w ! (j + k) * eval_rbf f (distance x (getX (ps ! k)))),
          Finite (swd + (\<Sum>k < length ps. w ! (j + k) * direction f x i (ps ! k))),
          sk + (\<Sum>k < length ps. eval_rbf f (distance x (getX (ps ! k)))),
          Finite (sd + (\<Sum>k < length ps. direction f x i (ps ! k))))"
proof (induction ps arbitrary: j sw swd sk sd)
  case Nil
  then show ?case by simp
next
  case (Cons p ps)
  from Cons.prems have len: "length x = length (getX p)"
    and rest: "list_all (\<lambda>p. length (getX p) = length x) ps"
    and bound: "Suc j + length ps \<le> length w" and here: "j < length w"
    by simp_all
  from len Cons.prems(3) have ip: "i < length (getX p)"
    by simp
  have dir: "direction f x i p =
     (if distance x (getX p) \<noteq> 0
      then evalDerivative f (distance x (getX p)) * (x ! i - getX p ! i) / distance x (getX p)
      else 0)"
    by (simp add: direction_def)
  show ?case
    using here Cons.prems(3) ip
    by (simp add: dist_vec_distance [OF len] vec_at_def vector_at_def Let_def dir
          Cons.IH [OF rest bound Cons.prems(3)] sum.lessThan_Suc_shift add.assoc mult.assoc
          del: sum.lessThan_Suc)
qed

lemma evalJacobian_entries_result:
  assumes "trained net" and "length x = numVariables net"
  shows "\<forall>i \<in> set idx. i < numVariables net \<Longrightarrow>
     \<exists>jac'. evalJacobian_entries net x idx jac = Inr jac'
       \<and> rows jac' = rows jac \<and> cols jac' = cols jac
       \<and> (\<forall>a c. coeff jac' (a, c) =
             (if a = 0 \<and> c \<in> set idx then spec_jacobian_entry net x c else coeff jac (a, c)))"
proof (induction idx arbitrary: jac)
  case Nil
  then show ?case by simp
next
  case (Cons i idx)
  let ?ps = "points (samples net)"
  from trained_lengths [OF assms]
  have ok: "list_all (\<lambda>p. length (getX p) = length x) ?ps"
    and len: "0 + length ?ps \<le> length (coefficients net)"
    by simp_all
  from Cons.prems assms(2) have i: "i < length x"
    by simp
  have inner: "evalJacobian_loop (fn net) (coefficients net) x i ?ps 0 (0, 0, 0, 0) =
      Inr (spec_sumw net x, Finite (spec_sumw_d net x i), spec_sum net x,
           Finite (spec_sum_d net x i))"
    using evalJacobian_loop_sums [OF ok len i, of "fn net" 0 0 0 0]
    by (simp add: spec_sumw_def spec_sumw_d_def spec_sum_def spec_sum_d_def activation_def
          zero_double_def)
  define jac1 where "jac1 = set_coeff jac 0 i (spec_jacobian_entry net x i)"
  have step: "evalJacobian_entries net x (i # idx) jac = evalJacobian_entries net x idx jac1"
    by (simp add: inner jac1_def spec_jacobian_entry_def power2_eq_square)
  from Cons.prems have "\<forall>i \<in> set idx. i < numVariables net"
    by simp
  from Cons.IH [OF this, of jac1] obtain jac' where
    run: "evalJacobian_entries net x idx jac1 = Inr jac'"
    and dims: "rows jac' = rows jac1" "cols jac' = cols jac1"
    and ent: "\<And>a c. coeff jac' (a, c) =
             (if a = 0 \<and> c \<in> set idx then spec_jacobian_entry net x c else coeff jac1 (a, c))"
    by blast
  show ?case
    unfolding step using run dims ent by (auto simp: jac1_def set_coeff_def)
qed

text \<open>
  Claim C4. For every trained network and every query point \<open>x\<close> with \<open>numVariables\<close>
  entries, \<open>evalJacobian\<close> returns a 1-by-\<open>numVariables\<close> matrix whose entry \<open>i\<close> is
  built by the chain rule: each sample contributes the kernel's derivative at its
  distance \<open>r\<close> from \<open>x\<close>, times the directional factor \<open>ri / r\<close>, and contributes zero
  when \<open>r = 0\<close>, so that no division by \<open>r = 0\<close> takes place. The entry is \<open>sumw_d\<close>,
  and in the normalized case the quotient \<open>(sum * sumw_d - sum_d * sumw) / sum\<^sup>2\<close>, which
  is not finite when \<open>sum\<close> is zero.
\<close>

theorem evalJacobian_chain_rule:
  assumes "trained net" and "length x = numVariables net"
  shows "\<exists>jac. evalJacobian net x = Inr jac \<and> rows jac = 1 \<and> cols jac = numVariables net
     \<and> (\<forall>i < numVariables net. coeff jac (0, i) =
           (if normalized net
            then ddiv (Finite (spec_sum net x * spec_sumw_d net x i
                                 - spec_sum_d net x i * spec_sumw net x))
                   ((spec_sum net x)\<^sup>2)
            else Finite (spec_sumw_d net x i)))"
  using evalJacobian_entries_result [OF assms, of "[0..<numVariables net]"
      "setZero 1 (numVariables net)"]
  by (auto simp: evalJacobian_def setZero_def spec_jacobian_entry_def)

theorem evalJacobian_chain_rule_witness:
  "trained ex_net \<and> length [1::real] = numVariables ex_net
   \<and> direction ex_kernel [1] 0 \<lparr>getX = [0], getY = 0\<rparr> = 2
   \<and> direction ex_kernel [1] 0 \<lparr>getX = [1], getY = 1\<rparr> = 0
   \<and> (\<exists>jac. evalJacobian ex_net [1] = Inr jac \<and> coeff jac (0, 0) = Finite (- 2))
   \<and> trained ex_zero_net \<and> length [1::real] = numVariables ex_zero_net
   \<and> (\<exists>jac. evalJacobian ex_zero_net [1] = Inr jac \<and> coeff jac (0, 0) = NotFinite)"
proof -
  have len: "length [1::real] = numVariables ex_net"
    by (simp add: ex_net_fields)
  have d0: "direction ex_kernel [1] 0 \<lparr>getX = [0], getY = 0\<rparr> = 2"
    and d1: "direction ex_kernel [1] 0 \<lparr>getX = [1], getY = 1\<rparr> = 0"
    and d2: "direction ex_kernel [1] 0 \<lparr>getX = [2], getY = 0\<rparr> = - 2"
    by (simp_all add: direction_def distance_def ex_kernel_def)
  have sd: "spec_sum_d ex_net [1] 0 = 0" and swd: "spec_sumw_d ex_net [1] 0 = - 4"
    by (simp_all add: spec_sum_d_def spec_sumw_d_def ex_net_fields d0 d1 d2)
  from evalJacobian_chain_rule [OF ex_net_trained len] obtain jac where
    run: "evalJacobian ex_net [1] = Inr jac"
    and ent: "\<And>i. i < numVariables ex_net \<Longrightarrow> coeff jac (0, i) =
           (if normalized ex_net
            then ddiv (Finite (spec_sum ex_net [1] * spec_sumw_d ex_net [1] i
                                 - spec_sum_d ex_net [1] i * spec_sumw ex_net [1]))
                   ((spec_sum ex_net [1])\<^sup>2)
            else Finite (spec_sumw_d ex_net [1] i))"
    by auto
  have entry: "coeff jac (0, 0) = Finite (- 2)"
    using ent [of 0] by (simp add: ex_net_fields ex_net_sums sd swd)
  have len0: "length [1::real] = numVariables ex_zero_net"
    by (simp add: ex_zero_net_fields)
  from evalJacobian_chain_rule [OF ex_zero_net_trained len0] obtain jac0 where
    run0: "evalJacobian ex_zero_net [1] = Inr jac0"
    and ent0: "\<And>i. i < numVariables ex_zero_net \<Longrightarrow> coeff jac0 (0, i) =
           (if normalized ex_zero_net
            then ddiv (Finite (spec_sum ex_zero_net [1] * spec_sumw_d ex_zero_net [1] i
                                 - spec_sum_d ex_zero_net [1] i * spec_sumw ex_zero_net [1]))
                   ((spec_sum ex_zero_net [1])\<^sup>2)
            else Finite (spec_sumw_d ex_zero_net [1] i))"
    by auto
  have entry0: "coeff jac0 (0, 0) = NotFinite"
    using ent0 [of 0] by (simp add: ex_zero_net_fields ex_zero_net_sums)
  from ex_net_trained len d0 d1 run entry ex_zero_net_trained len0 run0 entry0
  show ?thesis
    by blast
qed

subsection \<open>Dimension checks\<close>

lemma eval_wrong_dimension:
  "length x \<noteq> numVariables net \<Longrightarrow>
   eval net x = Inl (Exception ''RBFNetwork::eval: Wrong dimension on evaluation point x.'')"
  by (simp add: eval_def)

lemma eval_right_dimension:
  "trained net \<Longrightarrow> length x = numVariables net \<Longrightarrow> \<exists>y. eval net x = Inr y"
  by (simp add: eval_result)

lemma evalJacobian_right_dimension:
  assumes "trained net" and "length x = numVariables net"
  shows "\<exists>jac. evalJacobian net x = Inr jac"
  using evalJacobian_entries_result [OF assms, of "[0..<numVariables net]"
      "setZero 1 (numVariables net)"]
  by (auto simp: evalJacobian_def)

text \<open>
  \<open>evalJacobian\<close> has no check of its own: with a wrong number of entries in \<open>x\<close> it
  raises the exception of \<open>dist\<close>, at the first sample of the first input dimension,
  provided there is a sample and an input dimension.
\<close>

lemma evalJacobian_wrong_dimension:
  assumes "trained net" and "length x \<noteq> numVariables net"
    and "points (samples net) \<noteq> []" and "0 < numVariables net"
  shows "evalJacobian net x =
     Inl (Exception ''RBFNetwork::dist: Cannot measure distance between two points of different dimension'')"
proof -
  from assms(3) obtain p ps where ps: "points (samples net) = p # ps"
    by (cases "points (samples net)") auto
  with assms(1) have "length (getX p) = numVariables net"
    by (simp add: trained_def valid_table_def)
  with assms(2) have mismatch: "length x \<noteq> length (getX p)"
    by simp
  from assms(4) have idx: "[0..<numVariables net] = 0 # [1..<numVariables net]"
    by (simp add: upt_conv_Cons)
  show ?thesis
    by (simp add: evalJacobian_def idx ps dist_vec_mismatch [OF mismatch])
qed

text \<open>
  Claim C1. The claim: for every input vector whose length differs from \<open>numVariables\<close>
  both \<open>eval\<close> and \<open>evalJacobian\<close> raise a dimension error. \<open>eval\<close> checks the length
  first; \<open>evalJacobian\<close> does not, and raises only through \<open>dist\<close>. On a network without
  samples, and on a network over samples with no input coordinate (which the
  constructor builds), \<open>evalJacobian\<close> returns a matrix for a vector of the wrong
  length, where \<open>eval\<close> raises.
\<close>

theorem evalJacobian_lacks_dimension_check:
  "length [1, 2::real] \<noteq> numVariables ex_empty_net
   \<and> eval ex_empty_net [1, 2]
       = Inl (Exception ''RBFNetwork::eval: Wrong dimension on evaluation point x.'')
   \<and> evalJacobian ex_empty_net [1, 2] = Inr (set_coeff (setZero 1 1) 0 0 0)
   \<and> (\<exists>net c. RBFNetwork_ctor ex_new ex_svd \<lparr>dimX = 0, points = [\<lparr>getX = [], getY = 1\<rparr>]\<rparr>
                  GAUSSIAN False = Inr (net, c)
         \<and> numVariables net = 0
         \<and> eval net [5]
             = Inl (Exception ''RBFNetwork::eval: Wrong dimension on evaluation point x.'')
         \<and> evalJacobian net [5] = Inr (setZero 1 0))"
  by (simp add: ex_empty_net_def ex_empty_table_def eval_def evalJacobian_def
      RBFNetwork_ctor_def assemble_def dist_point_def dist_vec_def select_fn_def ex_new_def
      ex_svd_def vec_at_def getNumSamples_def getNumVariables_def setZero_def set_coeff_def
      Let_def)

subsection \<open>The constructor\<close>

lemma RBFNetwork_ctor_unfold:
  "RBFNetwork_ctor new jacobiSVD s t nz =
     (case assemble (select_fn new t) nz s (getNumSamples s) of
        Inl e \<Rightarrow> Inl e
      | Inr (A, b) \<Rightarrow>
          (case vec_at (singularValues (jacobiSVD A)) 0 of
             Inl e \<Rightarrow> Inl e
           | Inr smax \<Rightarrow>
               (case vec_at (singularValues (jacobiSVD A))
                       (int (length (singularValues (jacobiSVD A))) - 1) of
                  Inl e \<Rightarrow> Inl e
                | Inr smin \<Rightarrow>
                    Inr (\<lparr>numVariables = getNumVariables s, samples = s, type = t,
                          normalized = nz, precondition = False, numSamples = getNumSamples s,
                          fn = select_fn new t, coefficients = solve (jacobiSVD A) b\<rparr>,
                         \<lparr>svalmax = smax, svalmin = smin,
                          rcondnum = (if smax \<le> 0 \<or> smin \<le> 0 then 0 else smin / smax)\<rparr>))))"
  by (simp add: RBFNetwork_ctor_def Let_def split: sum.splits prod.splits)

lemma vec_at_first: "v \<noteq> [] \<Longrightarrow> vec_at v 0 = Inr (hd v)"
  by (cases v) (simp_all add: vec_at_def)

lemma vec_at_last: "v \<noteq> [] \<Longrightarrow> vec_at v (int (length v) - 1) = Inr (last v)"
  by (cases v rule: rev_cases) (simp_all add: vec_at_def nth_append)

lemma RBFNetwork_ctor_trains:
  assumes "valid_table s" and "points s \<noteq> []" and "svd_sized jacobiSVD"
  shows "\<exists>A b. assemble (select_fn new t) nz s (getNumSamples s) = Inr (A, b)
     \<and> rows A = getNumSamples s \<and> cols A = getNumSamples s
     \<and> singularValues (jacobiSVD A) \<noteq> []
     \<and> RBFNetwork_ctor new jacobiSVD s t nz =
         Inr (\<lparr>numVariables = getNumVariables s, samples = s, type = t,
               normalized = nz, precondition = False, numSamples = getNumSamples s,
               fn = select_fn new t, coefficients = solve (jacobiSVD A) b\<rparr>,
              \<lparr>svalmax = hd (singularValues (jacobiSVD A)),
               svalmin = last (singularValues (jacobiSVD A)),
               rcondnum = (if hd (singularValues (jacobiSVD A)) \<le> 0
                              \<or> last (singularValues (jacobiSVD A)) \<le> 0 then 0
                           else last (singularValues (jacobiSVD A))
                                / hd (singularValues (jacobiSVD A)))\<rparr>)"
proof -
  from assemble_result [OF assms(1), of "select_fn new t" nz] obtain A b where
    asm: "assemble (select_fn new t) nz s (getNumSamples s) = Inr (A, b)"
    and dims: "rows A = getNumSamples s" "cols A = getNumSamples s"
    by blast
  from assms(3) dims have "length (singularValues (jacobiSVD A)) = length (points s)"
    by (simp add: svd_sized_def getNumSamples_def)
  with assms(2) have ne: "singularValues (jacobiSVD A) \<noteq> []"
    by auto
  show ?thesis
    using asm dims ne by (simp add: RBFNetwork_ctor_unfold vec_at_first vec_at_last)
qed

lemma sorted_desc_hd_Max:
  "sorted_wrt (\<lambda>a b. b \<le> a) (v :: real list) \<Longrightarrow> v \<noteq> [] \<Longrightarrow> hd v = Max (set v)"
  by (cases v) (auto intro!: Max_eqI [symmetric])

lemma sorted_desc_last_Min:
  "sorted_wrt (\<lambda>a b. b \<le> a) (v :: real list) \<Longrightarrow> v \<noteq> [] \<Longrightarrow> last v = Min (set v)"
  by (cases v rule: rev_cases) (auto simp: sorted_wrt_append intro!: Min_eqI [symmetric])

lemma ex_table_valid: "valid_table ex_table"
  by (simp add: valid_table_def ex_table_def)

lemma ex_table_nonempty: "points ex_table \<noteq> []"
  by (simp add: ex_table_def)

lemma ex_table_size: "getNumSamples ex_table = 3"
  by (simp add: getNumSamples_def ex_table_def)

lemma ex_svd_sized: "svd_sized ex_svd"
  by (simp add: svd_sized_def ex_svd_def Let_def)

lemma ex_svd_three:
  "rows A = 3 \<Longrightarrow> cols A = 3 \<Longrightarrow> singularValues (ex_svd A) = [4, 0, 0]"
  by (simp add: ex_svd_def Let_def eval_nat_numeral)

text \<open>
  Claim C9. During training the reciprocal condition number is computed as 0 when the
  first or the last singular value of \<open>A\<close> is at most 0, and as the last divided by the
  first otherwise; the decomposition lists the singular values in decreasing order, so
  the first is the largest and the last the smallest. Training does not abort because
  of the value: on every valid table with a sample the constructor returns the network,
  with the weights the solver gives, whatever the singular values are.
\<close>

theorem rcondnum_diagnostic:
  assumes "valid_table s" and "points s \<noteq> []" and "svd_sized jacobiSVD"
  shows "\<exists>net c A b. RBFNetwork_ctor new jacobiSVD s t nz = Inr (net, c)
     \<and> assemble (fn net) nz s (getNumSamples s) = Inr (A, b)
     \<and> rows A = getNumSamples s \<and> cols A = getNumSamples s
     \<and> svalmax c = hd (singularValues (jacobiSVD A))
     \<and> svalmin c = last (singularValues (jacobiSVD A))
     \<and> (sorted_wrt (\<lambda>a b. b \<le> a) (singularValues (jacobiSVD A)) \<longrightarrow>
           svalmax c = Max (set (singularValues (jacobiSVD A)))
           \<and> svalmin c = Min (set (singularValues (jacobiSVD A))))
     \<and> rcondnum c = (if svalmax c \<le> 0 \<or> svalmin c \<le> 0 then 0 else svalmin c / svalmax c)
     \<and> coefficients net = solve (jacobiSVD A) b"
proof -
  from RBFNetwork_ctor_trains [OF assms, of new t nz] obtain A b where
    "assemble (select_fn new t) nz s (getNumSamples s) = Inr (A, b)"
    and "rows A = getNumSamples s" "cols A = getNumSamples s"
    and "singularValues (jacobiSVD A) \<noteq> []"
    and "RBFNetwork_ctor new jacobiSVD s t nz =
         Inr (\<lparr>numVariables = getNumVariables s, samples = s, type = t,
               normalized = nz, precondition = False, numSamples = getNumSamples s,
               fn = select_fn new t, coefficients = solve (jacobiSVD A) b\<rparr>,
              \<lparr>svalmax = hd (singularValues (jacobiSVD A)),
               svalmin = last (singularValues (jacobiSVD A)),
               rcondnum = (if hd (singularValues (jacobiSVD A)) \<le> 0
                              \<or> last (singularValues (jacobiSVD A)) \<le> 0 then 0
                           else last (singularValues (jacobiSVD A))
                                / hd (singularValues (jacobiSVD A)))\<rparr>)"
    by blast
  then show ?thesis
    by (simp add: sorted_desc_hd_Max sorted_desc_last_Min)
qed

theorem rcondnum_diagnostic_witness:
  "valid_table ex_table \<and> points ex_table \<noteq> [] \<and> svd_sized ex_svd
   \<and> sorted_wrt (\<lambda>a b. b \<le> a) [4, 0, 0 :: real]
   \<and> (\<exists>net c A. RBFNetwork_ctor ex_new ex_svd ex_table GAUSSIAN False = Inr (net, c)
         \<and> singularValues (ex_svd A) = [4, 0, 0]
         \<and> svalmax c = Max (set (singularValues (ex_svd A)))
         \<and> svalmin c = Min (set (singularValues (ex_svd A)))
         \<and> svalmax c = 4 \<and> svalmin c = 0 \<and> rcondnum c = 0)"
proof -
  from rcondnum_diagnostic [OF ex_table_valid ex_table_nonempty ex_svd_sized,
      of ex_new GAUSSIAN False]
  obtain net c A b where
    run: "RBFNetwork_ctor ex_new ex_svd ex_table GAUSSIAN False = Inr (net, c)"
    and dims: "rows A = getNumSamples ex_table" "cols A = getNumSamples ex_table"
    and smax: "svalmax c = hd (singularValues (ex_svd A))"
    and smin: "svalmin c = last (singularValues (ex_svd A))"
    and ordered: "sorted_wrt (\<lambda>a b. b \<le> a) (singularValues (ex_svd A)) \<longrightarrow>
           svalmax c = Max (set (singularValues (ex_svd A)))
           \<and> svalmin c = Min (set (singularValues (ex_svd A)))"
    and rc: "rcondnum c = (if svalmax c \<le> 0 \<or> svalmin c \<le> 0 then 0
                           else svalmin c / svalmax c)"
    by blast
  from dims have svals: "singularValues (ex_svd A) = [4, 0, 0]"
    by (simp add: ex_svd_three ex_table_size)
  have desc: "sorted_wrt (\<lambda>a b. b \<le> a) [4, 0, 0 :: real]"
    by simp
  from ordered desc have extremes: "svalmax c = Max (set (singularValues (ex_svd A)))"
    "svalmin c = Min (set (singularValues (ex_svd A)))"
    by (simp_all add: svals)
  from smax smin rc have nums: "svalmax c = 4" "svalmin c = 0" "rcondnum c = 0"
    by (simp_all add: svals)
  from run svals extremes nums ex_table_valid ex_table_nonempty ex_svd_sized desc
  show ?thesis
    by blast
qed

lemma select_fn_other: "select_fn new (OTHER_TYPE k) = new ThinPlateSpline"
  by (simp add: select_fn_def)

lemma select_fn_tps: "select_fn new THIN_PLATE_SPLINE = new ThinPlateSpline"
  by (simp add: select_fn_def)

text \<open>
  Claim C10, amended. For every valid sample table with at least one sample and every
  kernel-type argument that is none of the five enumerators, the constructor does not
  fail: it takes the thin-plate-spline kernel and trains with it, so that the result is
  the one for \<open>THIN_PLATE_SPLINE\<close> except for the stored type. (As stated, for every
  sample table, the claim fails on the table without samples: see the counterexample.)
\<close>

theorem unknown_type_falls_back:
  assumes "valid_table s" and "points s \<noteq> []" and "svd_sized jacobiSVD"
  shows "\<exists>net c. RBFNetwork_ctor new jacobiSVD s (OTHER_TYPE k) nz = Inr (net, c)
     \<and> type net = OTHER_TYPE k \<and> fn net = new ThinPlateSpline
     \<and> RBFNetwork_ctor new jacobiSVD s THIN_PLATE_SPLINE nz
         = Inr (net\<lparr>type := THIN_PLATE_SPLINE\<rparr>, c)"
proof -
  from RBFNetwork_ctor_trains [OF assms, of new "OTHER_TYPE k" nz]
    RBFNetwork_ctor_trains [OF assms, of new THIN_PLATE_SPLINE nz]
  show ?thesis
    by (auto simp: select_fn_other select_fn_tps)
qed

theorem unknown_type_falls_back_witness:
  "valid_table ex_table \<and> points ex_table \<noteq> [] \<and> svd_sized ex_svd
   \<and> (\<exists>net c. RBFNetwork_ctor ex_new ex_svd ex_table (OTHER_TYPE 7) True = Inr (net, c)
         \<and> type net = OTHER_TYPE 7 \<and> fn net = ex_kernel)"
proof -
  from unknown_type_falls_back [OF ex_table_valid ex_table_nonempty ex_svd_sized,
      of ex_new 7 True]
  have "\<exists>net c. RBFNetwork_ctor ex_new ex_svd ex_table (OTHER_TYPE 7) True = Inr (net, c)
         \<and> type net = OTHER_TYPE 7 \<and> fn net = ex_kernel"
    by (auto simp: ex_new_def)
  with ex_table_valid ex_table_nonempty ex_svd_sized show ?thesis
    by blast
qed

theorem unknown_type_empty_table_counterexample:
  "valid_table ex_empty_table \<and> svd_sized ex_svd
   \<and> RBFNetwork_ctor ex_new ex_svd ex_empty_table (OTHER_TYPE 7) False
       = Inl eigen_index_out_of_range"
  by (simp add: ex_svd_sized valid_table_def ex_empty_table_def RBFNetwork_ctor_def
      assemble_def getNumSamples_def setZero_def ex_svd_def vec_at_def Let_def)

section \<open>Properties of the serializer\<close>

lemma length_to_bytes: "length (to_bytes n w) = n"
  by (induction n arbitrary: w) simp_all

lemma from_to_bytes: "from_bytes (to_bytes n w) = take_bit (8 * n) w"
proof (induction n arbitrary: w)
  case 0
  then show ?case by simp
next
  case (Suc n)
  show ?case
    by (rule bit_word_eqI) (auto simp: Suc bit_simps)
qed

lemma from_to_bytes_word: "from_bytes (to_bytes 8 w) = w"
  by (simp add: from_to_bytes take_bit_word_eq_self)

lemma deserialize_raw_at:
  "stream s = pre @ bs @ post \<Longrightarrow> read s = length pre \<Longrightarrow>
   deserialize_raw (length bs) s = Inr (bs, s\<lparr>read := length pre + length bs\<rparr>)"
  by (simp add: deserialize_raw_def)

lemma deserialize_double_at:
  assumes "stream s = pre @ to_bytes sizeof_double v @ post" and "read s = length pre"
  shows "deserialize_double s = Inr (v, s\<lparr>read := length pre + sizeof_double\<rparr>)"
  using deserialize_raw_at [OF assms]
  by (simp add: deserialize_double_def length_to_bytes sizeof_double_def from_to_bytes_word)

lemma deserialize_size_at:
  assumes "stream s = pre @ to_bytes sizeof_size (word_of_nat n) @ post" and "read s = length pre"
    and "n < 2 ^ 64"
  shows "deserialize_size s = Inr (n, s\<lparr>read := length pre + sizeof_size\<rparr>)"
proof -
  from assms(3) have "unat (word_of_nat n :: 64 word) = n"
    by (simp add: unat_of_nat)
  then show ?thesis
    using deserialize_raw_at [OF assms(1,2)]
    by (simp add: deserialize_size_def length_to_bytes sizeof_size_def from_to_bytes_word)
qed

lemma length_row_bytes: "length (row_bytes m i js) = length js * sizeof_double"
  by (induction js) (simp_all add: row_bytes_def length_to_bytes)

lemma length_rows_bytes: "length (rows_bytes m idx js) = length idx * (length js * sizeof_double)"
  by (induction idx) (simp_all add: rows_bytes_def length_row_bytes)

lemma deserialize_row_at:
  "stream s = pre @ row_bytes m i js @ post \<Longrightarrow> read s = length pre \<Longrightarrow>
   \<exists>obj'. deserialize_row i js obj s
              = Inr (obj', s\<lparr>read := length pre + length js * sizeof_double\<rparr>)
     \<and> rows obj' = rows obj \<and> cols obj' = cols obj
     \<and> (\<forall>a c. coeff obj' (a, c) =
           (if a = i \<and> c \<in> set js then coeff m (i, c) else coeff obj (a, c)))"
proof (induction js arbitrary: pre obj s)
  case Nil
  then show ?case by simp
next
  case (Cons j js)
  define v where "v = coeff m (i, j)"
  define s1 where "s1 = s\<lparr>read := length pre + sizeof_double\<rparr>"
  define obj1 where "obj1 = set_coeff obj i j v"
  from Cons.prems have here: "stream s = pre @ to_bytes sizeof_double v @ (row_bytes m i js @ post)"
    by (simp add: row_bytes_def v_def)
  have step: "deserialize_row i (j # js) obj s = deserialize_row i js obj1 s1"
    by (simp add: deserialize_double_at [OF here Cons.prems(2)] s1_def obj1_def)
  have st1: "stream s1 = (pre @ to_bytes sizeof_double v) @ row_bytes m i js @ post"
    and rd1: "read s1 = length (pre @ to_bytes sizeof_double v)"
    using here by (simp_all add: s1_def length_to_bytes)
  from Cons.IH [OF st1 rd1, of obj1] obtain obj' where
    run: "deserialize_row i js obj1 s1
            = Inr (obj', s1\<lparr>read := length (pre @ to_bytes sizeof_double v)
                                   + length js * sizeof_double\<rparr>)"
    and dims: "rows obj' = rows obj1" "cols obj' = cols obj1"
    and ent: "\<And>a c. coeff obj' (a, c) =
           (if a = i \<and> c \<in> set js then coeff m (i, c) else coeff obj1 (a, c))"
    by blast
  show ?case
    unfolding step using run dims ent
    by (auto simp: s1_def obj1_def set_coeff_def v_def length_to_bytes)
qed

lemma deserialize_rows_at:
  "stream s = pre @ rows_bytes m idx js @ post \<Longrightarrow> read s = length pre \<Longrightarrow>
   \<exists>obj'. deserialize_rows idx js obj s
              = Inr (obj', s\<lparr>read := length pre + length idx * (length js * sizeof_double)\<rparr>)
     \<and> rows obj' = rows obj \<and> cols obj' = cols obj
     \<and> (\<forall>a c. coeff obj' (a, c) =
           (if a \<in> set idx \<and> c \<in> set js then coeff m (a, c) else coeff obj (a, c)))"
proof (induction idx arbitrary: pre obj s)
  case Nil
  then show ?case by simp
next
  case (Cons i idx)
  from Cons.prems have here: "stream s = pre @ row_bytes m i js @ (rows_bytes m idx js @ post)"
    by (simp add: rows_bytes_def)
  from deserialize_row_at [OF here Cons.prems(2), of obj] obtain obj1 where
    row: "deserialize_row i js obj s
            = Inr (obj1, s\<lparr>read := length pre + length js * sizeof_double\<rparr>)"
    and dims1: "rows obj1 = rows obj" "cols obj1 = cols obj"
    and ent1: "\<And>a c. coeff obj1 (a, c) =
           (if a = i \<and> c \<in> set js then coeff m (i, c) else coeff obj (a, c))"
    by blast
  define s1 where "s1 = s\<lparr>read := length pre + length js * sizeof_double\<rparr>"
  have st1: "stream s1 = (pre @ row_bytes m i js) @ rows_bytes m idx js @ post"
    and rd1: "read s1 = length (pre @ row_bytes m i js)"
    using here by (simp_all add: s1_def length_row_bytes)
  from Cons.IH [OF st1 rd1, of obj1] obtain obj' where
    run: "deserialize_rows idx js obj1 s1
            = Inr (obj', s1\<lparr>read := length (pre @ row_bytes m i js)
                                   + length idx * (length js * sizeof_double)\<rparr>)"
    and dims: "rows obj' = rows obj1" "cols obj' = cols obj1"
    and ent: "\<And>a c. coeff obj' (a, c) =
           (if a \<in> set idx \<and> c \<in> set js then coeff m (a, c) else coeff obj1 (a, c))"
    by blast
  have step: "deserialize_rows (i # idx) js obj s = deserialize_rows idx js obj1 s1"
    by (simp add: row s1_def)
  show ?case
    unfolding step using run dims dims1 ent ent1
    by (auto simp: s1_def length_row_bytes)
qed

lemma serialize_row_stream:
  "fold (\<lambda>j. serialize_double (coeff m (i, j))) js s
     = s\<lparr>stream := stream s @ row_bytes m i js\<rparr>"
  by (induction js arbitrary: s) (simp_all add: row_bytes_def serialize_double_def serialize_raw_def)

lemma serialize_rows_stream:
  "fold (\<lambda>i. fold (\<lambda>j. serialize_double (coeff m (i, j))) js) idx s
     = s\<lparr>stream := stream s @ rows_bytes m idx js\<rparr>"
  by (induction idx arbitrary: s) (simp_all add: rows_bytes_def serialize_row_stream)

lemma serialize_DenseMatrix_stream:
  "serialize_DenseMatrix m s = s\<lparr>stream := stream s @ matrix_bytes m\<rparr>"
  by (simp add: serialize_DenseMatrix_def Let_def serialize_rows_stream serialize_size_def
      serialize_raw_def matrix_bytes_def)

lemma length_matrix_bytes:
  "length (matrix_bytes m) = 2 * sizeof_size + rows m * cols m * sizeof_double"
  by (simp add: matrix_bytes_def length_to_bytes length_rows_bytes)

lemma deserialize_DenseMatrix_at:
  assumes "stream s = pre @ matrix_bytes m @ post" and "read s = length pre"
    and "rows m < 2 ^ 64" and "cols m < 2 ^ 64"
  shows "\<exists>m'. deserialize_DenseMatrix obj s
              = Inr (m', s\<lparr>read := length pre + length (matrix_bytes m)\<rparr>)
     \<and> rows m' = rows m \<and> cols m' = cols m
     \<and> (\<forall>i < rows m. \<forall>j < cols m. coeff m' (i, j) = coeff m (i, j))"
proof -
  let ?r = "to_bytes sizeof_size (word_of_nat (rows m))"
  let ?c = "to_bytes sizeof_size (word_of_nat (cols m))"
  let ?e = "rows_bytes m [0..<rows m] [0..<cols m]"
  define s1 where "s1 = s\<lparr>read := length pre + sizeof_size\<rparr>"
  define s2 where "s2 = s1\<lparr>read := length (pre @ ?r) + sizeof_size\<rparr>"
  from assms(1) have st: "stream s = pre @ ?r @ (?c @ ?e @ post)"
    by (simp add: matrix_bytes_def)
  have r: "deserialize_size s = Inr (rows m, s1)"
    using deserialize_size_at [OF st assms(2,3)] by (simp add: s1_def)
  have st1: "stream s1 = (pre @ ?r) @ ?c @ (?e @ post)" and rd1: "read s1 = length (pre @ ?r)"
    using st by (simp_all add: s1_def length_to_bytes)
  have c: "deserialize_size s1 = Inr (cols m, s2)"
    using deserialize_size_at [OF st1 rd1 assms(4)] by (simp add: s2_def)
  have st2: "stream s2 = (pre @ ?r @ ?c) @ ?e @ post" and rd2: "read s2 = length (pre @ ?r @ ?c)"
    using st by (simp_all add: s2_def s1_def length_to_bytes)
  from deserialize_rows_at [OF st2 rd2, of "resize obj (rows m) (cols m)"] obtain m' where
    run: "deserialize_rows [0..<rows m] [0..<cols m] (resize obj (rows m) (cols m)) s2
            = Inr (m', s2\<lparr>read := length (pre @ ?r @ ?c)
                                  + length [0..<rows m] * (length [0..<cols m] * sizeof_double)\<rparr>)"
    and dims: "rows m' = rows (resize obj (rows m) (cols m))"
      "cols m' = cols (resize obj (rows m) (cols m))"
    and ent: "\<And>a c. coeff m' (a, c) =
           (if a \<in> set [0..<rows m] \<and> c \<in> set [0..<cols m] then coeff m (a, c)
            else coeff (resize obj (rows m) (cols m)) (a, c))"
    by blast
  have final: "s2\<lparr>read := length (pre @ ?r @ ?c)
                        + length [0..<rows m] * (length [0..<cols m] * sizeof_double)\<rparr>
      = s\<lparr>read := length pre + length (matrix_bytes m)\<rparr>"
    by (simp add: s2_def s1_def length_matrix_bytes length_to_bytes)
  have "deserialize_DenseMatrix obj s
      = Inr (m', s\<lparr>read := length pre + length (matrix_bytes m)\<rparr>)"
    unfolding deserialize_DenseMatrix_def r sum.case prod.case c run final ..
  with dims ent show ?thesis
    by (auto simp: resize_def)
qed

lemma unat_word_of_nat_small: "k < 2 ^ 64 \<Longrightarrow> unat (word_of_nat k :: 64 word) = k"
  by (simp add: unat_of_nat)

lemma get_size_DenseMatrix_value:
  assumes "in_memory m"
  shows "unat (get_size_DenseMatrix m) = 2 * sizeof_size + rows m * cols m * sizeof_double"
proof -
  define n where "n = rows m * cols m"
  define total where "total = 2 * sizeof_size + n * sizeof_double"
  from assms have total: "total < 2 ^ 64"
    by (simp add: in_memory_def n_def total_def)
  have "n \<le> total"
    by (simp add: total_def sizeof_double_def)
  with total have small: "n < 2 ^ 64"
    by simp
  have "2 * sizeof_size \<le> total"
    by (simp add: total_def)
  with total have header: "2 * sizeof_size < 2 ^ 64"
    by simp
  have prod: "(word_of_nat (rows m) * word_of_nat (cols m) :: 64 word) = word_of_nat n"
    by (simp add: n_def)
  have size0: "(word_of_nat sizeof_size + word_of_nat sizeof_size :: 64 word)
      = word_of_nat (2 * sizeof_size)"
    by simp
  have whole: "(word_of_nat (2 * sizeof_size) + word_of_nat n * word_of_nat sizeof_double :: 64 word)
      = word_of_nat total"
    by (simp add: total_def)
  have pos: "(0 :: 64 word) < word_of_nat n \<longleftrightarrow> 0 < n"
    using unat_word_of_nat_small [OF small] by (metis unat_gt_0 word_greater_zero_iff)
  show ?thesis
  proof (cases "0 < n")
    case True
    then have "get_size_DenseMatrix m = word_of_nat total"
      by (simp only: get_size_DenseMatrix_def Let_def prod size0 pos whole if_True)
    then have "unat (get_size_DenseMatrix m) = total"
      by (simp only: unat_word_of_nat_small [OF total])
    then show ?thesis
      by (simp only: total_def n_def)
  next
    case False
    then have "get_size_DenseMatrix m = word_of_nat (2 * sizeof_size)"
      by (simp only: get_size_DenseMatrix_def Let_def prod size0 pos if_False)
    then have "unat (get_size_DenseMatrix m) = 2 * sizeof_size"
      by (simp only: unat_word_of_nat_small [OF header])
    moreover from False have "rows m * cols m * sizeof_double = 0"
      by (simp add: n_def)
    ultimately show ?thesis
      by (simp only: add_0_right)
  qed
qed

lemma file_roundtrip:
  assumes "opens_for_output fs fileName" and "opens_for_input fs fileName"
  shows "Serializer_from_file fileName (saveToFile fileName s fs)
     = Inr \<lparr>stream = stream s, read = 0\<rparr>"
  using assms
  by (simp add: Serializer_from_file_def loadFromFile_def saveToFile_def Serializer_new_def)

lemma save_unopened_file:
  "\<not> opens_for_output fs fileName \<Longrightarrow> saveToFile fileName s fs = fs"
  by (simp add: saveToFile_def)

lemma load_unopened_file:
  "\<not> opens_for_input fs fileName \<Longrightarrow> \<exists>msg. loadFromFile fileName fs s = Inl (Exception msg)"
  by (simp add: loadFromFile_def)

text \<open>
  The round trip through a file: when the name opens for output and for input, the
  serializer loaded from the file that \<open>saveToFile\<close> wrote holds the serialized matrix
  with the read iterator at its start, and deserializing from it gives the matrix back.
\<close>

lemma DenseMatrix_file_roundtrip:
  assumes "in_memory m" and "opens_for_output fs fileName" and "opens_for_input fs fileName"
  shows "\<exists>s m' s'.
       Serializer_from_file fileName
           (saveToFile fileName (serialize_DenseMatrix m Serializer_new) fs) = Inr s
     \<and> deserialize_DenseMatrix obj s = Inr (m', s')
     \<and> rows m' = rows m \<and> cols m' = cols m
     \<and> (\<forall>i < rows m. \<forall>j < cols m. coeff m' (i, j) = coeff m (i, j))"
proof -
  define s where "s = \<lparr>stream = matrix_bytes m, read = 0\<rparr>"
  from assms(1) have r: "rows m < 2 ^ 64" and c: "cols m < 2 ^ 64"
    by (simp_all add: in_memory_def)
  have written: "stream (serialize_DenseMatrix m Serializer_new) = matrix_bytes m"
    by (simp add: serialize_DenseMatrix_stream Serializer_new_def)
  have loaded: "Serializer_from_file fileName
      (saveToFile fileName (serialize_DenseMatrix m Serializer_new) fs) = Inr s"
    by (simp only: file_roundtrip [OF assms(2,3)] written s_def)
  have st: "stream s = [] @ matrix_bytes m @ []" and rd: "read s = length ([] :: byte list)"
    by (simp_all add: s_def)
  from deserialize_DenseMatrix_at [OF st rd r c, of obj] loaded show ?thesis
    by blast
qed

text \<open>
  Claim C5. For every dense matrix of doubles that exists in memory (in particular
  every 5-by-3 one), serializing it onto a stream and deserializing from the position
  where its bytes start yields a matrix with the same dimensions whose elements are
  bitwise equal to the originals, and the decoder stops where the bytes end. The
  serialization adds \<open>2 * sizeof_size + rows * cols * sizeof_double\<close> bytes to the
  stream, which is also the value of \<open>get_size\<close>.
\<close>

theorem DenseMatrix_roundtrip:
  assumes "in_memory m"
    and "stream s = stream (serialize_DenseMatrix m s0)" and "read s = length (stream s0)"
  shows "\<exists>m'. deserialize_DenseMatrix obj s = Inr (m', s\<lparr>read := length (stream s)\<rparr>)
     \<and> rows m' = rows m \<and> cols m' = cols m
     \<and> (\<forall>i < rows m. \<forall>j < cols m. coeff m' (i, j) = coeff m (i, j))
     \<and> length (stream (serialize_DenseMatrix m s0))
           = length (stream s0) + (2 * sizeof_size + rows m * cols m * sizeof_double)
     \<and> unat (get_size_DenseMatrix m) = 2 * sizeof_size + rows m * cols m * sizeof_double"
proof -
  from assms(1) have r: "rows m < 2 ^ 64" and c: "cols m < 2 ^ 64"
    by (simp_all add: in_memory_def)
  have written: "stream (serialize_DenseMatrix m s0) = stream s0 @ matrix_bytes m"
    by (simp add: serialize_DenseMatrix_stream)
  from assms(2) have st: "stream s = stream s0 @ matrix_bytes m @ []"
    by (simp add: written)
  from deserialize_DenseMatrix_at [OF st assms(3) r c, of obj] obtain m' where
    run: "deserialize_DenseMatrix obj s
            = Inr (m', s\<lparr>read := length (stream s0) + length (matrix_bytes m)\<rparr>)"
    and dims: "rows m' = rows m" "cols m' = cols m"
    and ent: "\<forall>i < rows m. \<forall>j < cols m. coeff m' (i, j) = coeff m (i, j)"
    by blast
  have stop: "length (stream s0) + length (matrix_bytes m) = length (stream s)"
    by (simp add: st)
  have len: "length (stream (serialize_DenseMatrix m s0))
      = length (stream s0) + (2 * sizeof_size + rows m * cols m * sizeof_double)"
    by (simp only: written length_append length_matrix_bytes)
  from run dims ent len get_size_DenseMatrix_value [OF assms(1)] show ?thesis
    by (simp only: stop) blast
qed

lemma ex_matrix_in_memory: "in_memory ex_matrix"
  by (simp add: in_memory_def ex_matrix_def sizeof_size_def sizeof_double_def)

theorem DenseMatrix_roundtrip_witness:
  "in_memory ex_matrix
   \<and> (\<exists>s. Serializer_from_file ex_file_name
             (saveToFile ex_file_name (serialize_DenseMatrix ex_matrix Serializer_new) ex_files)
           = Inr s
       \<and> stream s = stream (serialize_DenseMatrix ex_matrix Serializer_new)
       \<and> read s = length (stream Serializer_new)
       \<and> (\<exists>m'. deserialize_DenseMatrix \<lparr>rows = 0, cols = 0, coeff = (\<lambda>_. 0)\<rparr> s
                   = Inr (m', s\<lparr>read := length (stream s)\<rparr>)
             \<and> rows m' = 5 \<and> cols m' = 3
             \<and> coeff m' (4, 2) = coeff ex_matrix (4, 2)
             \<and> coeff m' (0, 1) = 0x0123456789ABCDEF)
       \<and> length (stream s) = 2 * sizeof_size + 15 * sizeof_double)"
proof -
  define s where "s = \<lparr>stream = stream (serialize_DenseMatrix ex_matrix Serializer_new),
                       read = 0\<rparr>"
  have loaded: "Serializer_from_file ex_file_name
      (saveToFile ex_file_name (serialize_DenseMatrix ex_matrix Serializer_new) ex_files) = Inr s"
    unfolding s_def by (rule file_roundtrip) (simp_all add: ex_files_def ex_file_name_def)
  have st: "stream s = stream (serialize_DenseMatrix ex_matrix Serializer_new)"
    and rd: "read s = length (stream Serializer_new)"
    by (simp_all add: s_def Serializer_new_def)
  from DenseMatrix_roundtrip [OF ex_matrix_in_memory st rd,
      of "\<lparr>rows = 0, cols = 0, coeff = (\<lambda>_. 0)\<rparr>"]
  obtain m' where
    run: "deserialize_DenseMatrix \<lparr>rows = 0, cols = 0, coeff = (\<lambda>_. 0)\<rparr> s
            = Inr (m', s\<lparr>read := length (stream s)\<rparr>)"
    and dims: "rows m' = rows ex_matrix" "cols m' = cols ex_matrix"
    and ent: "\<And>i j. i < rows ex_matrix \<Longrightarrow> j < cols ex_matrix \<Longrightarrow>
        coeff m' (i, j) = coeff ex_matrix (i, j)"
    and len: "length (stream (serialize_DenseMatrix ex_matrix Serializer_new))
        = length (stream Serializer_new)
          + (2 * sizeof_size + rows ex_matrix * cols ex_matrix * sizeof_double)"
    by blast
  have shape: "rows ex_matrix = 5" "cols ex_matrix = 3"
    by (simp_all add: ex_matrix_def)
  have d5: "rows m' = 5" and d3: "cols m' = 3"
    using dims by (simp_all add: shape)
  have e42: "coeff m' (4, 2) = coeff ex_matrix (4, 2)"
    using ent [of 4 2] by (simp add: shape)
  have e01: "coeff m' (0, 1) = 0x0123456789ABCDEF"
    using ent [of 0 1] by (simp add: shape) (simp add: ex_matrix_def)
  have total: "length (stream s) = 2 * sizeof_size + 15 * sizeof_double"
    using len by (simp add: st shape Serializer_new_def)
  from ex_matrix_in_memory loaded st rd run d5 d3 e42 e01 total show ?thesis
    by blast
qed

end
